theory Spec2Isabelle
  imports
    Complex_Main
    "HOL-Library.Sublist"
    "HOL-Library.Char_ord"
    "HOL-Library.List_Lexorder"
    "HOL-Library.Multiset"
    "HOL-Library.Log_Nat"
begin

section \<open>Data model of githubservice.go\<close>

text \<open>
  The service reads snapshots from the remote provider through the go-github client.
  Only the fields the code touches are kept. The pointer-typed fields the code
  dereferences (\<open>*repo.Name\<close>, \<open>*pullRequest.CreatedAt\<close>, \<open>*commit.SHA\<close>, ...) are
  plain values here: the objects are those the provider decoded, which carry them.
  The exception is \<open>repo.PushedAt\<close>: the provider sends null for a repository that was
  never pushed to, so the field is an option, \<open>None\<close> for the nil pointer.
  A Go slice is a list; the nil slice and the empty slice are both \<open>[]\<close>, except for
  \<open>issue.Labels\<close>, which the code compares with nil. An instant (\<open>time.Time\<close>) is a
  number of nanoseconds on the time line, a \<open>time.Duration\<close> a number of nanoseconds.
  The Go \<open>int\<close> values of the code are day counts, pull-request numbers and slice
  lengths; they are integers here.
\<close>

type_synonym time = int
type_synonym duration = int

datatype error = Error string

record label =
  label_Name :: string

record issue =
  issue_Number :: int
  Labels :: "label list option"

record repository =
  Name :: string
  PushedAt :: "time option"

record pullRequest =
  Number :: int
  CreatedAt :: time
  UpdatedAt :: time

record repositoryCommit =
  SHA :: string
  Parents :: "string list"

subsection \<open>The remote provider\<close>

text \<open>
  One page of a listing: the error of the call, or the items and \<open>resp.NextPage\<close>
  (0 when there is no further page). The record \<open>client\<close> holds the six calls of the
  go-github client the service uses, each with the arguments and option fields that
  vary in the code; the last argument is \<open>ListOptions.Page\<close> (0 on a first request).
\<close>

type_synonym 'a page = "error + 'a list \<times> nat"

record client =
  Search_Issues :: "string \<Rightarrow> nat \<Rightarrow> issue page"
  Issues_ListByRepo :: "string \<Rightarrow> string \<Rightarrow> string \<Rightarrow> nat \<Rightarrow> issue page"
  Repositories_ListCommits :: "string \<Rightarrow> string \<Rightarrow> time \<Rightarrow> nat \<Rightarrow> repositoryCommit page"
  Repositories_ListByOrg :: "string \<Rightarrow> nat \<Rightarrow> repository page"
  PullRequests_List :: "string \<Rightarrow> string \<Rightarrow> string \<Rightarrow> string \<Rightarrow> string \<Rightarrow> nat \<Rightarrow> pullRequest page"
  PullRequests_ListCommits :: "string \<Rightarrow> string \<Rightarrow> int \<Rightarrow> nat \<Rightarrow> repositoryCommit page"

text \<open>
  Every function below returns, next to its Go results, the requests it sent to the
  provider, in the order it sent them.
\<close>

datatype request =
    ReqSearchIssues string nat
  | ReqIssuesListByRepo string string string nat
  | ReqRepositoriesListCommits string string time nat
  | ReqRepositoriesListByOrg string nat
  | ReqPullRequestsList string string string string string nat
  | ReqPullRequestsListCommits string string int nat

section \<open>Paginated loading\<close>

text \<open>
  The five loaders \<open>loadIssuesForAssignee\<close>, \<open>loadIssuesForRepo\<close>,
  \<open>loadCommitsForRepo\<close>, \<open>loadReposForOrganization\<close> and \<open>loadPRsForRepo\<close> are the
  same \<open>for { ... }\<close> loop around a different call. The loop is written once:
  \<open>fetch\<close> is the call at a page, \<open>all\<close> the slice accumulated so far, \<open>reqs\<close> the
  pages requested so far. The loop has no bound in the code: it ends when a call fails
  or a response has \<open>NextPage == 0\<close>, and \<open>None\<close> stands for a run that never ends.
\<close>

partial_function (option) paginate ::
  "(nat \<Rightarrow> 'a page) \<Rightarrow> nat \<Rightarrow> 'a list \<Rightarrow> nat list \<Rightarrow> ('a list \<times> error option \<times> nat list) option"
where
  "paginate fetch page all reqs =
     (case fetch page of
        Inl err \<Rightarrow> Some (all, Some err, reqs @ [page])
      | Inr (items, nextPage) \<Rightarrow>
          if nextPage = 0 then Some (all @ items, None, reqs @ [page])
          else paginate fetch nextPage (all @ items) (reqs @ [page]))"

definition withRequests ::
  "(nat \<Rightarrow> request) \<Rightarrow> ('a list \<times> error option \<times> nat list) option
     \<Rightarrow> ('a list \<times> error option \<times> request list) option" where
  "withRequests mk r = map_option (\<lambda>(all, e, pages). (all, e, map mk pages)) r"

definition loadIssuesForAssignee ::
  "client \<Rightarrow> string \<Rightarrow> string \<Rightarrow> (issue list \<times> error option \<times> request list) option" where
  "loadIssuesForAssignee c owner assignee =
     (let q = ''user:'' @ owner @ '' assignee:'' @ assignee
      in withRequests (ReqSearchIssues q) (paginate (Search_Issues c q) 0 [] []))"

definition loadIssuesForRepo ::
  "client \<Rightarrow> string \<Rightarrow> string \<Rightarrow> string \<Rightarrow> (issue list \<times> error option \<times> request list) option" where
  "loadIssuesForRepo c owner repo assigned =
     withRequests (ReqIssuesListByRepo owner repo assigned)
       (paginate (Issues_ListByRepo c owner repo assigned) 0 [] [])"

text \<open>The parameter \<open>committer\<close> is not used by the code.\<close>

definition loadCommitsForRepo ::
  "client \<Rightarrow> string \<Rightarrow> string \<Rightarrow> string \<Rightarrow> time
     \<Rightarrow> (repositoryCommit list \<times> error option \<times> request list) option" where
  "loadCommitsForRepo c owner repo committer timeLimit =
     withRequests (ReqRepositoriesListCommits owner repo timeLimit)
       (paginate (Repositories_ListCommits c owner repo timeLimit) 0 [] [])"

definition loadReposForOrganization ::
  "client \<Rightarrow> string \<Rightarrow> (repository list \<times> error option \<times> request list) option" where
  "loadReposForOrganization c owner =
     withRequests (ReqRepositoriesListByOrg owner)
       (paginate (Repositories_ListByOrg c owner) 0 [] [])"

definition loadPRsForRepo ::
  "client \<Rightarrow> string \<Rightarrow> string \<Rightarrow> (pullRequest list \<times> error option \<times> request list) option" where
  "loadPRsForRepo c owner repo =
     withRequests (ReqPullRequestsList owner repo ''open'' [] [])
       (paginate (PullRequests_List c owner repo ''open'' [] []) 0 [] [])"

section \<open>Library routines used by the service\<close>

text \<open>
  The standard library is not part of the repository. What the code needs from it is
  collected in \<open>env\<close>: the clock (\<open>time.Now\<close>, read as one instant for the whole call),
  the calendar arithmetic \<open>Time.AddDate\<close>, and \<open>sort.Sort\<close> at the two slice types it
  is used on, as a function of the \<open>Less\<close> method and the slice.
\<close>

record env =
  time_Now :: time
  time_AddDate :: "time \<Rightarrow> int \<Rightarrow> int \<Rightarrow> int \<Rightarrow> time"
  sort_Repositories :: "(repository \<Rightarrow> repository \<Rightarrow> bool) \<Rightarrow> repository list \<Rightarrow> repository list"
  sort_PullRequests :: "(pullRequest \<Rightarrow> pullRequest \<Rightarrow> bool) \<Rightarrow> pullRequest list \<Rightarrow> pullRequest list"

definition After :: "time \<Rightarrow> time \<Rightarrow> bool" where
  "After t u = (u < t)"

definition Before :: "time \<Rightarrow> time \<Rightarrow> bool" where
  "Before t u = (t < u)"

definition minDuration :: duration where
  "minDuration = - (2 ^ 63)"

definition maxDuration :: duration where
  "maxDuration = 2 ^ 63 - 1"

text \<open>\<open>Time.Sub\<close> saturates at the ends of the 64-bit duration range.\<close>

definition Sub :: "time \<Rightarrow> time \<Rightarrow> duration" where
  "Sub t u =
     (let d = t - u
      in if d < minDuration then minDuration
         else if maxDuration < d then maxDuration
         else d)"

definition Since :: "env \<Rightarrow> time \<Rightarrow> duration" where
  "Since ev t = Sub (time_Now ev) t"

subsection \<open>Arithmetic on float64\<close>

text \<open>
  A finite \<open>float64\<close> value is a rational number. \<open>round64\<close> is the rounding every
  \<open>float64\<close> operation ends with: to the nearest value with a significand of 53 bits,
  a tie going to the even significand. \<open>ilog2 x\<close> is the exponent \<open>e\<close> with
  \<open>2 ^ e \<le> \<bar>x\<bar> < 2 ^ (e + 1)\<close>. Overflow and subnormal numbers are left out: the
  values of the code are hours of a 64-bit duration, day counts and fractions of an
  hour of at least one nanosecond, all far inside the normal range.
\<close>

definition roundToEven :: "rat \<Rightarrow> int" where
  "roundToEven y =
     (let f = \<lfloor>y\<rfloor>; r = y - of_int f
      in if r < 1 / 2 then f else if 1 / 2 < r then f + 1 else if even f then f else f + 1)"

definition ilog2 :: "rat \<Rightarrow> int" where
  "ilog2 x =
     (case quotient_of \<bar>x\<bar> of (p, q) \<Rightarrow>
        let k = bitlen p - bitlen q in if power_int 2 k \<le> \<bar>x\<bar> then k else k - 1)"

definition round64 :: "rat \<Rightarrow> rat" where
  "round64 x =
     (if x = 0 then 0
      else sgn x * (of_int (roundToEven (\<bar>x\<bar> / power_int 2 (ilog2 x - 52)))
                     * power_int 2 (ilog2 x - 52)))"

text \<open>The conversion \<open>float64(n)\<close> of an integer.\<close>

definition float64 :: "int \<Rightarrow> rat" where
  "float64 n = round64 (of_int n)"

text \<open>
  The quotient and the remainder of Go's integer division, which truncates towards
  zero, and \<open>Duration.Hours\<close> as the time package has it:
  \<^verbatim>\<open>hour := d / Hour; nsec := d % Hour; return float64(hour) + float64(nsec)/(60*60*1e9)\<close>
\<close>

definition Hour :: duration where
  "Hour = 3600000000000"

definition go_quo :: "int \<Rightarrow> int \<Rightarrow> int" where
  "go_quo a b = sgn a * sgn b * (\<bar>a\<bar> div \<bar>b\<bar>)"

definition go_rem :: "int \<Rightarrow> int \<Rightarrow> int" where
  "go_rem a b = a - go_quo a b * b"

definition Hours :: "duration \<Rightarrow> rat" where
  "Hours d =
     (let hour = go_quo d Hour; nsec = go_rem d Hour
      in round64 (float64 hour + round64 (float64 nsec / 3600000000000)))"

text \<open>
  \<open>strings.ToLower\<close> on the ASCII letters (bytes outside \<open>A\<close>..\<open>Z\<close> are kept), and
  \<open>strings.Contains\<close>. Adding \<open>'a' - 'A'\<close> = 32 to a byte in \<open>A\<close>..\<open>Z\<close> sets its bit 5,
  which is clear in that range.
\<close>

definition toLowerChar :: "char \<Rightarrow> char" where
  "toLowerChar ch =
     (if CHR ''A'' \<le> ch \<and> ch \<le> CHR ''Z''
      then (case ch of Char b0 b1 b2 b3 b4 b5 b6 b7 \<Rightarrow> Char b0 b1 b2 b3 b4 True b6 b7)
      else ch)"

definition ToLower :: "string \<Rightarrow> string" where
  "ToLower s = map toLowerChar s"


fun Contains :: "string \<Rightarrow> string \<Rightarrow> bool" where
  "Contains [] substr = (substr = [])"
| "Contains (ch # s) substr = (prefix substr (ch # s) \<or> Contains s substr)"

section \<open>Commits of pull requests\<close>

text \<open>
  The inner loop of \<open>loadCommitsFromAllRepoPRs\<close> over one page of pull requests. It
  returns the pool, the recorded error, \<open>remainingPRsAreOlder\<close> and the requests. The
  store \<open>prOpt.Page = prResp.NextPage\<close> at the end of the body is followed by the next
  iteration, which builds a new \<open>prOpt\<close>: both branches on \<open>prResp.NextPage\<close> go on
  with the next pull request.
\<close>

fun loadCommitsFromAllRepoPRs_range ::
  "client \<Rightarrow> string \<Rightarrow> string \<Rightarrow> time \<Rightarrow> pullRequest list \<Rightarrow> repositoryCommit list
     \<Rightarrow> error option \<Rightarrow> request list
     \<Rightarrow> repositoryCommit list \<times> error option \<times> bool \<times> request list" where
  "loadCommitsFromAllRepoPRs_range c owner repo timeLimit [] allPRCommits e reqs =
     (allPRCommits, e, False, reqs)"
| "loadCommitsFromAllRepoPRs_range c owner repo timeLimit (pullRequest # rest) allPRCommits e reqs =
     (if After timeLimit (CreatedAt pullRequest) \<and> After timeLimit (UpdatedAt pullRequest)
      then (allPRCommits, e, True, reqs)
      else
        (case PullRequests_ListCommits c owner repo (Number pullRequest) 0 of
           Inl err \<Rightarrow>
             loadCommitsFromAllRepoPRs_range c owner repo timeLimit rest allPRCommits (Some err)
               (reqs @ [ReqPullRequestsListCommits owner repo (Number pullRequest) 0])
         | Inr (prCommits, nextPage) \<Rightarrow>
             if nextPage = 0
             then loadCommitsFromAllRepoPRs_range c owner repo timeLimit rest
                    (allPRCommits @ prCommits) e
                    (reqs @ [ReqPullRequestsListCommits owner repo (Number pullRequest) 0])
             else loadCommitsFromAllRepoPRs_range c owner repo timeLimit rest
                    (allPRCommits @ prCommits) e
                    (reqs @ [ReqPullRequestsListCommits owner repo (Number pullRequest) 0])))"

partial_function (option) loadCommitsFromAllRepoPRs_loop ::
  "client \<Rightarrow> string \<Rightarrow> string \<Rightarrow> time \<Rightarrow> nat \<Rightarrow> repositoryCommit list \<Rightarrow> error option
     \<Rightarrow> request list \<Rightarrow> (repositoryCommit list \<times> error option \<times> request list) option"
where
  "loadCommitsFromAllRepoPRs_loop c owner repo timeLimit page allPRCommits e reqs =
     (case PullRequests_List c owner repo ''open,closed'' ''updated'' ''desc'' page of
        Inl err \<Rightarrow>
          Some (allPRCommits, Some err,
                reqs @ [ReqPullRequestsList owner repo ''open,closed'' ''updated'' ''desc'' page])
      | Inr (pullRequests, nextPage) \<Rightarrow>
          (case loadCommitsFromAllRepoPRs_range c owner repo timeLimit pullRequests allPRCommits e
                  (reqs @ [ReqPullRequestsList owner repo ''open,closed'' ''updated'' ''desc'' page]) of
             (allPRCommits', e', remainingPRsAreOlder, reqs') \<Rightarrow>
               if nextPage = 0 \<or> remainingPRsAreOlder then Some (allPRCommits', e', reqs')
               else loadCommitsFromAllRepoPRs_loop c owner repo timeLimit nextPage
                      allPRCommits' e' reqs'))"

definition loadCommitsFromAllRepoPRs ::
  "client \<Rightarrow> string \<Rightarrow> string \<Rightarrow> time
     \<Rightarrow> (repositoryCommit list \<times> error option \<times> request list) option" where
  "loadCommitsFromAllRepoPRs c owner repo timeLimit =
     loadCommitsFromAllRepoPRs_loop c owner repo timeLimit 0 [] None []"

section \<open>Active repositories and open pull requests\<close>

definition RepositoryNameSorter_Less :: "repository \<Rightarrow> repository \<Rightarrow> bool" where
  "RepositoryNameSorter_Less a b = (ToLower (Name a) < ToLower (Name b))"

definition PROpenDurationSorter_Less :: "pullRequest \<Rightarrow> pullRequest \<Rightarrow> bool" where
  "PROpenDurationSorter_Less a b = Before (CreatedAt a) (CreatedAt b)"

text \<open>
  The loop of \<open>loadActiveReposForOrganization\<close>. \<open>repo.PushedAt.Time\<close> on a nil
  \<open>PushedAt\<close> is a nil-pointer panic: the call does not return, which is the result
  \<open>None\<close> here as it is for a listing that never ends. The test is the one of the code,
  \<open>time.Since(repo.PushedAt.Time).Hours() <= float64(days)*24\<close>, on \<open>float64\<close>.
\<close>

fun loadActiveReposForOrganization_range ::
  "env \<Rightarrow> int \<Rightarrow> repository list \<Rightarrow> repository list \<Rightarrow> repository list option" where
  "loadActiveReposForOrganization_range ev days [] activeRepos = Some activeRepos"
| "loadActiveReposForOrganization_range ev days (repo # rest) activeRepos =
     (case PushedAt repo of
        None \<Rightarrow> None
      | Some pushed \<Rightarrow>
          if Hours (Since ev pushed) \<le> round64 (float64 days * 24)
          then loadActiveReposForOrganization_range ev days rest (activeRepos @ [repo])
          else loadActiveReposForOrganization_range ev days rest activeRepos)"

definition loadActiveReposForOrganization ::
  "env \<Rightarrow> client \<Rightarrow> string \<Rightarrow> int \<Rightarrow> (repository list \<times> error option \<times> request list) option" where
  "loadActiveReposForOrganization ev c owner days =
     (case loadReposForOrganization c owner of
        None \<Rightarrow> None
      | Some (allRepos, err, reqs) \<Rightarrow>
          (case loadActiveReposForOrganization_range ev days allRepos [] of
             None \<Rightarrow> None
           | Some activeRepos \<Rightarrow>
               Some (sort_Repositories ev RepositoryNameSorter_Less activeRepos, err, reqs)))"

text \<open>
  The loop over the pull requests of one repository, with its \<open>break\<close>. The age is
  \<open>time.Since(*pullRequest.CreatedAt).Hours() / 24\<close>, compared with
  \<open>float64(daysPROpen)\<close>.
\<close>

fun loadOpenPRsForOrganization_prs ::
  "env \<Rightarrow> int \<Rightarrow> pullRequest list \<Rightarrow> pullRequest list \<Rightarrow> pullRequest list" where
  "loadOpenPRsForOrganization_prs ev daysPROpen [] allOpenPRs = allOpenPRs"
| "loadOpenPRsForOrganization_prs ev daysPROpen (pullRequest # rest) allOpenPRs =
     (let numberOfDays = round64 (Hours (Since ev (CreatedAt pullRequest)) / 24)
      in if numberOfDays < float64 daysPROpen then allOpenPRs
         else loadOpenPRsForOrganization_prs ev daysPROpen rest (allOpenPRs @ [pullRequest]))"

text \<open>The loop over the active repositories; a failed listing ends it.\<close>

fun loadOpenPRsForOrganization_repos ::
  "env \<Rightarrow> client \<Rightarrow> string \<Rightarrow> int \<Rightarrow> repository list \<Rightarrow> pullRequest list \<Rightarrow> error option
     \<Rightarrow> request list \<Rightarrow> (pullRequest list \<times> error option \<times> request list) option" where
  "loadOpenPRsForOrganization_repos ev c owner daysPROpen [] allOpenPRs e reqs =
     Some (allOpenPRs, e, reqs)"
| "loadOpenPRsForOrganization_repos ev c owner daysPROpen (repo # rest) allOpenPRs e reqs =
     (case loadPRsForRepo c owner (Name repo) of
        None \<Rightarrow> None
      | Some (pullRequests, err, reqs1) \<Rightarrow>
          if err \<noteq> None then Some (allOpenPRs, err, reqs @ reqs1)
          else loadOpenPRsForOrganization_repos ev c owner daysPROpen rest
                 (loadOpenPRsForOrganization_prs ev daysPROpen pullRequests allOpenPRs) e
                 (reqs @ reqs1))"

definition loadOpenPRsForOrganization ::
  "env \<Rightarrow> client \<Rightarrow> string \<Rightarrow> int \<Rightarrow> int
     \<Rightarrow> (pullRequest list \<times> error option \<times> request list) option" where
  "loadOpenPRsForOrganization ev c owner daysPROpen daysSinceLastProjectActivity =
     (case loadActiveReposForOrganization ev c owner daysSinceLastProjectActivity of
        None \<Rightarrow> None
      | Some (activeRepos, e, reqs) \<Rightarrow>
          (case loadOpenPRsForOrganization_repos ev c owner daysPROpen activeRepos [] e reqs of
             None \<Rightarrow> None
           | Some (allOpenPRs, e', reqs') \<Rightarrow>
               Some (sort_PullRequests ev PROpenDurationSorter_Less allOpenPRs, e', reqs')))"

definition OpenPullRequests ::
  "env \<Rightarrow> client \<Rightarrow> string \<Rightarrow> int \<Rightarrow> int
     \<Rightarrow> (pullRequest list \<times> error option \<times> request list) option" where
  "OpenPullRequests ev c owner daysPROpen daysSinceLastProjectActivity =
     loadOpenPRsForOrganization ev c owner daysPROpen daysSinceLastProjectActivity"

section \<open>Commits pushed to the branch directly\<close>

fun isCommitInList :: "repositoryCommit \<Rightarrow> repositoryCommit list \<Rightarrow> bool" where
  "isCommitInList commit [] = False"
| "isCommitInList commit (listCommit # rest) =
     (if SHA commit = SHA listCommit then True else isCommitInList commit rest)"

fun masterCommitsForSingleRepo_range ::
  "(repositoryCommit \<Rightarrow> repositoryCommit list \<Rightarrow> bool) \<Rightarrow> repositoryCommit list
     \<Rightarrow> repositoryCommit list \<Rightarrow> repositoryCommit list \<Rightarrow> repositoryCommit list" where
  "masterCommitsForSingleRepo_range lambda [] allPRCommits masterCommits = masterCommits"
| "masterCommitsForSingleRepo_range lambda (commit # rest) allPRCommits masterCommits =
     (if length (Parents commit) \<le> 1 \<and> \<not> lambda commit allPRCommits
      then masterCommitsForSingleRepo_range lambda rest allPRCommits (masterCommits @ [commit])
      else masterCommitsForSingleRepo_range lambda rest allPRCommits masterCommits)"

text \<open>
  The results of \<open>masterCommitsForSingleRepo\<close> are the slice, the count and the error.
  The two assignments to \<open>err\<close> follow each other: the value tested is the one of
  \<open>loadCommitsFromAllRepoPRs\<close>.
\<close>

definition masterCommitsForSingleRepo ::
  "env \<Rightarrow> client \<Rightarrow> string \<Rightarrow> string \<Rightarrow> string
     \<Rightarrow> (repositoryCommit \<Rightarrow> repositoryCommit list \<Rightarrow> bool) \<Rightarrow> int
     \<Rightarrow> (repositoryCommit list \<times> int \<times> error option \<times> request list) option" where
  "masterCommitsForSingleRepo ev c owner repo committer lambda days =
     (let timeLimit = time_AddDate ev (time_Now ev) 0 0 (- days)
      in case loadCommitsForRepo c owner repo committer timeLimit of
           None \<Rightarrow> None
         | Some (commits, err0, reqs1) \<Rightarrow>
             (case loadCommitsFromAllRepoPRs c owner repo timeLimit of
                None \<Rightarrow> None
              | Some (allPRCommits, err, reqs2) \<Rightarrow>
                  if err \<noteq> None then Some ([], 0, err, reqs1 @ reqs2)
                  else Some (masterCommitsForSingleRepo_range lambda commits allPRCommits [],
                             int (length commits), err, reqs1 @ reqs2)))"

text \<open>
  The loop of \<open>makeCommitsList\<close> over the active repositories. The map result is
  \<open>None\<close> for the nil map the code returns with an error.
\<close>

fun makeCommitsList_range ::
  "env \<Rightarrow> client \<Rightarrow> string \<Rightarrow> string \<Rightarrow> (repositoryCommit \<Rightarrow> repositoryCommit list \<Rightarrow> bool)
     \<Rightarrow> int \<Rightarrow> repository list \<Rightarrow> (string \<rightharpoonup> repositoryCommit list) \<Rightarrow> int \<Rightarrow> request list
     \<Rightarrow> ((string \<rightharpoonup> repositoryCommit list) option \<times> int \<times> error option \<times> request list) option"
where
  "makeCommitsList_range ev c owner committer lambda days [] repoToMasterCommits totalCommits reqs =
     Some (Some repoToMasterCommits, totalCommits, None, reqs)"
| "makeCommitsList_range ev c owner committer lambda days (repository # rest)
       repoToMasterCommits totalCommits reqs =
     (let repoName = Name repository
      in case masterCommitsForSingleRepo ev c owner repoName committer lambda days of
           None \<Rightarrow> None
         | Some (masterCommits, totalRepoCommits, err, reqs1) \<Rightarrow>
             if err \<noteq> None then Some (None, 0, err, reqs @ reqs1)
             else if length masterCommits > 0
             then makeCommitsList_range ev c owner committer lambda days rest
                    (repoToMasterCommits(repoName \<mapsto> masterCommits))
                    (totalCommits + totalRepoCommits) (reqs @ reqs1)
             else makeCommitsList_range ev c owner committer lambda days rest
                    repoToMasterCommits totalCommits (reqs @ reqs1))"

definition makeCommitsList ::
  "env \<Rightarrow> client \<Rightarrow> string \<Rightarrow> string \<Rightarrow> string
     \<Rightarrow> (repositoryCommit \<Rightarrow> repositoryCommit list \<Rightarrow> bool) \<Rightarrow> int
     \<Rightarrow> ((string \<rightharpoonup> repositoryCommit list) option \<times> int \<times> error option \<times> request list) option"
where
  "makeCommitsList ev c owner repo committer lambda days =
     (if repo = []
      then
        (case loadActiveReposForOrganization ev c owner days of
           None \<Rightarrow> None
         | Some (repositories, err, reqs) \<Rightarrow>
             if err \<noteq> None then Some (None, 0, err, reqs)
             else makeCommitsList_range ev c owner committer lambda days repositories
                    Map.empty 0 reqs)
      else
        (case masterCommitsForSingleRepo ev c owner repo committer lambda days of
           None \<Rightarrow> None
         | Some (masterCommits, totalRepoCommits, err, reqs) \<Rightarrow>
             if err \<noteq> None then Some (None, 0, err, reqs)
             else Some (Some (Map.empty(repo \<mapsto> masterCommits)), 0 + totalRepoCommits, None, reqs)))"

definition CommitsToMaster ::
  "env \<Rightarrow> client \<Rightarrow> string \<Rightarrow> string \<Rightarrow> int
     \<Rightarrow> ((string \<rightharpoonup> repositoryCommit list) option \<times> int \<times> error option \<times> request list) option"
where
  "CommitsToMaster ev c owner repo days = makeCommitsList ev c owner repo [] isCommitInList days"

section \<open>Issue classification\<close>

fun getLabelString_range :: "label list \<Rightarrow> string \<Rightarrow> string" where
  "getLabelString_range [] retval = retval"
| "getLabelString_range (l # rest) retval =
     getLabelString_range rest (retval @ ToLower (label_Name l) @ '' '')"

definition getLabelString :: "label list option \<Rightarrow> string" where
  "getLabelString labels =
     (case labels of None \<Rightarrow> [] | Some ls \<Rightarrow> getLabelString_range ls [])"

definition any_issue :: "issue \<Rightarrow> bool" where
  "any_issue i = True"

definition isProductBacklogItem :: "issue \<Rightarrow> bool" where
  "isProductBacklogItem i =
     (let l = getLabelString (Labels i) in Contains l ''product'' \<and> Contains l ''backlog'')"

definition isSprintItem :: "issue \<Rightarrow> bool" where
  "isSprintItem i = (let l = getLabelString (Labels i) in Contains l ''sprint'')"

definition isInProgress :: "issue \<Rightarrow> bool" where
  "isInProgress i =
     (let l = getLabelString (Labels i) in Contains l ''in'' \<and> Contains l ''progress'')"

definition isReadyForQA :: "issue \<Rightarrow> bool" where
  "isReadyForQA i =
     (let l = getLabelString (Labels i)
      in Contains l ''ready'' \<and> Contains l ''for'' \<and> Contains l ''qa'')"

definition isReadyForReview :: "issue \<Rightarrow> bool" where
  "isReadyForReview i =
     (let l = getLabelString (Labels i)
      in Contains l ''ready'' \<and> Contains l ''for'' \<and> Contains l ''review'')"

definition isQAPass :: "issue \<Rightarrow> bool" where
  "isQAPass i = (let l = getLabelString (Labels i) in Contains l ''qa'' \<and> Contains l ''pass'')"

definition isDone :: "issue \<Rightarrow> bool" where
  "isDone i = (let l = getLabelString (Labels i) in Contains l ''done'')"

definition isBacklogItem :: "issue \<Rightarrow> bool" where
  "isBacklogItem i =
     (if isSprintItem i \<or> isInProgress i \<or> isReadyForQA i \<or> isQAPass i \<or> isDone i
      then False else True)"

fun makeIssueList_range :: "(issue \<Rightarrow> bool) \<Rightarrow> issue list \<Rightarrow> issue list \<Rightarrow> issue list" where
  "makeIssueList_range lambda [] sprintIssues = sprintIssues"
| "makeIssueList_range lambda (i # rest) sprintIssues =
     (if Labels i \<noteq> None
      then (if lambda i then makeIssueList_range lambda rest (sprintIssues @ [i])
            else makeIssueList_range lambda rest sprintIssues)
      else makeIssueList_range lambda rest sprintIssues)"

definition makeIssueList ::
  "client \<Rightarrow> string \<Rightarrow> string \<Rightarrow> string \<Rightarrow> (issue \<Rightarrow> bool)
     \<Rightarrow> (issue list \<times> error option \<times> request list) option" where
  "makeIssueList c owner repo assigned lambda =
     (case loadIssuesForRepo c owner repo assigned of
        None \<Rightarrow> None
      | Some (issues, err, reqs) \<Rightarrow>
          if err \<noteq> None then Some ([], err, reqs)
          else Some (makeIssueList_range lambda issues [], err, reqs))"

definition Sprint :: "client \<Rightarrow> string \<Rightarrow> string \<Rightarrow> (issue list \<times> error option \<times> request list) option" where
  "Sprint c owner repo = makeIssueList c owner repo [] isSprintItem"

definition InProgress :: "client \<Rightarrow> string \<Rightarrow> string \<Rightarrow> (issue list \<times> error option \<times> request list) option" where
  "InProgress c owner repo = makeIssueList c owner repo [] isInProgress"

definition ReadyForQA :: "client \<Rightarrow> string \<Rightarrow> string \<Rightarrow> (issue list \<times> error option \<times> request list) option" where
  "ReadyForQA c owner repo = makeIssueList c owner repo [] isReadyForQA"

definition QAPass :: "client \<Rightarrow> string \<Rightarrow> string \<Rightarrow> (issue list \<times> error option \<times> request list) option" where
  "QAPass c owner repo = makeIssueList c owner repo [] isQAPass"

definition ReadyForReview :: "client \<Rightarrow> string \<Rightarrow> string \<Rightarrow> (issue list \<times> error option \<times> request list) option" where
  "ReadyForReview c owner repo = makeIssueList c owner repo [] isReadyForReview"

definition AssignedTo ::
  "client \<Rightarrow> string \<Rightarrow> string \<Rightarrow> string \<Rightarrow> (issue list \<times> error option \<times> request list) option" where
  "AssignedTo c owner repo login =
     (if repo = ''*'' then loadIssuesForAssignee c owner login
      else makeIssueList c owner repo login any_issue)"

definition Backlog :: "client \<Rightarrow> string \<Rightarrow> string \<Rightarrow> (issue list \<times> error option \<times> request list) option" where
  "Backlog c owner repo = makeIssueList c owner repo [] isBacklogItem"

section \<open>What the provider serves\<close>

text \<open>
  The claims speak of the pages a listing is made of. \<open>served fetch page rs fin\<close> says
  that the requests starting at \<open>page\<close> are answered by the pages \<open>rs\<close> (items and
  \<open>NextPage\<close>) one after the other, and that the listing then either ends, with
  \<open>NextPage = 0\<close> on the last page (\<open>fin = None\<close>), or fails with \<open>err\<close> on the request
  after the last page (\<open>fin = Some err\<close>). \<open>requested page rs\<close> are the page numbers
  of these requests.
\<close>

fun served :: "(nat \<Rightarrow> 'a page) \<Rightarrow> nat \<Rightarrow> ('a list \<times> nat) list \<Rightarrow> error option \<Rightarrow> bool" where
  "served fetch page [] fin = (case fin of None \<Rightarrow> False | Some err \<Rightarrow> fetch page = Inl err)"
| "served fetch page ((items, nextPage) # rest) fin =
     (fetch page = Inr (items, nextPage) \<and>
      (if nextPage = 0 then rest = [] \<and> fin = None else served fetch nextPage rest fin))"

fun requested :: "nat \<Rightarrow> ('a list \<times> nat) list \<Rightarrow> nat list" where
  "requested page [] = [page]"
| "requested page ((items, nextPage) # rest) =
     page # (if nextPage = 0 then [] else requested nextPage rest)"

text \<open>
  \<open>follows fetch page rs q\<close>: the requests starting at \<open>page\<close> are answered by the
  pages \<open>rs\<close>, each naming a further page, the last of them naming \<open>q\<close>.
\<close>

fun follows :: "(nat \<Rightarrow> 'a page) \<Rightarrow> nat \<Rightarrow> ('a list \<times> nat) list \<Rightarrow> nat \<Rightarrow> bool" where
  "follows fetch page [] q = (q = page)"
| "follows fetch page ((items, nextPage) # rest) q =
     (fetch page = Inr (items, nextPage) \<and> nextPage \<noteq> 0 \<and> follows fetch nextPage rest q)"

subsection \<open>The walk over the pull requests\<close>

text \<open>
  A pull request is older than the time limit when it was created and last updated
  before it. For a list of pull requests, \<open>pooled\<close> is what the first page of each
  one's commit listing contributes where the call succeeds, \<open>recorded\<close> the error
  variable after their calls, and \<open>commitRequests\<close> the requests for these first pages.
  \<open>walkRequests\<close> lists the requests of a walk over pages of pull requests: the request
  for the page, then one commit request for each of its pull requests.
\<close>

definition older :: "time \<Rightarrow> pullRequest \<Rightarrow> bool" where
  "older timeLimit pr = (CreatedAt pr < timeLimit \<and> UpdatedAt pr < timeLimit)"

definition pooled :: "client \<Rightarrow> string \<Rightarrow> string \<Rightarrow> pullRequest list \<Rightarrow> repositoryCommit list" where
  "pooled c owner repo prs =
     concat (map (\<lambda>pr. case PullRequests_ListCommits c owner repo (Number pr) 0 of
                          Inl err \<Rightarrow> [] | Inr (prCommits, nextPage) \<Rightarrow> prCommits) prs)"

fun recorded :: "client \<Rightarrow> string \<Rightarrow> string \<Rightarrow> pullRequest list \<Rightarrow> error option \<Rightarrow> error option" where
  "recorded c owner repo [] e = e"
| "recorded c owner repo (pr # prs) e =
     recorded c owner repo prs
       (case PullRequests_ListCommits c owner repo (Number pr) 0 of
          Inl err \<Rightarrow> Some err | Inr r \<Rightarrow> e)"

definition commitRequests :: "string \<Rightarrow> string \<Rightarrow> pullRequest list \<Rightarrow> request list" where
  "commitRequests owner repo prs =
     map (\<lambda>pr. ReqPullRequestsListCommits owner repo (Number pr) 0) prs"

fun walkRequests :: "string \<Rightarrow> string \<Rightarrow> nat \<Rightarrow> (pullRequest list \<times> nat) list \<Rightarrow> request list" where
  "walkRequests owner repo page [] = []"
| "walkRequests owner repo page ((prs, nextPage) # rest) =
     ReqPullRequestsList owner repo ''open,closed'' ''updated'' ''desc'' page
       # commitRequests owner repo prs @ walkRequests owner repo nextPage rest"

subsection \<open>Concrete providers\<close>

text \<open>
  A provider on which every call fails; the examples override single calls. Instants
  are counted in days of 24 hours in the examples.
\<close>

definition day :: "int \<Rightarrow> time" where
  "day n = n * 86400000000000"

definition client0 :: client where
  "client0 =
     \<lparr> Search_Issues = (\<lambda>q p. Inl (Error ''unavailable'')),
       Issues_ListByRepo = (\<lambda>ow r a p. Inl (Error ''unavailable'')),
       Repositories_ListCommits = (\<lambda>ow r t p. Inl (Error ''unavailable'')),
       Repositories_ListByOrg = (\<lambda>ow p. Inl (Error ''unavailable'')),
       PullRequests_List = (\<lambda>ow r s so d p. Inl (Error ''unavailable'')),
       PullRequests_ListCommits = (\<lambda>ow r n p. Inl (Error ''unavailable'')) \<rparr>"

definition issueN :: "int \<Rightarrow> string list \<Rightarrow> issue" where
  "issueN n ls = \<lparr> issue_Number = n, Labels = Some (map (\<lambda>l. \<lparr> label_Name = l \<rparr>) ls) \<rparr>"

definition repoN :: "string \<Rightarrow> time \<Rightarrow> repository" where
  "repoN n t = \<lparr> Name = n, PushedAt = Some t \<rparr>"

definition commitN :: "string \<Rightarrow> string list \<Rightarrow> repositoryCommit" where
  "commitN s ps = \<lparr> SHA = s, Parents = ps \<rparr>"

definition prN :: "int \<Rightarrow> time \<Rightarrow> time \<Rightarrow> pullRequest" where
  "prN n created updated = \<lparr> Number = n, CreatedAt = created, UpdatedAt = updated \<rparr>"

text \<open>
  Every listing in pages. The issues of a repository come in three pages (numbered 0,
  2 and 3 by the provider) of which the third fails; the issues found by a search in
  two pages; the commits of a branch in one page followed by a failure; the
  repositories in two pages (\<open>Zeta\<close> pushed 1 day before day 100, \<open>alpha\<close> 40 days,
  \<open>beta\<close> 5 days and \<open>gamma\<close> 30 days before it); the open pull requests in two pages.
\<close>

definition client_pages :: client where
  "client_pages = client0
     \<lparr> Search_Issues := (\<lambda>q p.
          if p = 0 then Inr ([issueN 4 [''bug'']], 2)
          else if p = 2 then Inr ([issueN 5 [], issueN 6 [''done'']], 0)
          else Inl (Error ''not found'')),
       Issues_ListByRepo := (\<lambda>ow r a p.
          if p = 0 then Inr ([issueN 1 [''bug''], issueN 2 []], 2)
          else if p = 2 then Inr ([issueN 3 [''sprint'']], 3)
          else Inl (Error ''rate limit'')),
       Repositories_ListCommits := (\<lambda>ow r t p.
          if p = 0 then Inr ([commitN ''a1'' [''p0''], commitN ''b2'' [''a1'', ''c1'']], 3)
          else Inl (Error ''bad gateway'')),
       Repositories_ListByOrg := (\<lambda>ow p.
          if p = 0 then Inr ([repoN ''Zeta'' (day 99)], 5)
          else if p = 5
          then Inr ([repoN ''alpha'' (day 60), repoN ''beta'' (day 95),
                     repoN ''gamma'' (day 70)], 0)
          else Inl (Error ''not found'')),
       PullRequests_List := (\<lambda>ow r s so d p.
          if p = 0 then Inr ([prN 31 (day 98) (day 98)], 2)
          else if p = 2 then Inr ([prN 32 (day 90) (day 91)], 0)
          else Inl (Error ''not found'')) \<rparr>"

subsection \<open>A concrete library\<close>

text \<open>
  One \<open>sort.Sort\<close>: the insertion sort by adjacent swaps of the sort package, which
  is what \<open>sort.Sort\<close> runs on a slice as short as those of the examples.
\<close>

fun insertionSort_down :: "('a \<Rightarrow> 'a \<Rightarrow> bool) \<Rightarrow> nat \<Rightarrow> 'a list \<Rightarrow> 'a list" where
  "insertionSort_down lt 0 xs = xs"
| "insertionSort_down lt (Suc j) xs =
     (if lt (xs ! Suc j) (xs ! j)
      then insertionSort_down lt j (xs[Suc j := xs ! j, j := xs ! Suc j])
      else xs)"

definition insertionSort :: "('a \<Rightarrow> 'a \<Rightarrow> bool) \<Rightarrow> 'a list \<Rightarrow> 'a list" where
  "insertionSort lt xs = fold (insertionSort_down lt) [1..<length xs] xs"

text \<open>
  The clock of the examples stands at day 100; \<open>AddDate\<close> is called with 0 years and
  0 months only and moves by whole days.
\<close>

definition env_ex :: env where
  "env_ex =
     \<lparr> time_Now = day 100,
       time_AddDate = (\<lambda>t years months days. t + day days),
       sort_Repositories = insertionSort,
       sort_PullRequests = insertionSort \<rparr>"

subsection \<open>Concrete pull requests and commits\<close>

text \<open>
  Pull requests in update order, newest first: updated 1, 5, 40 and 45 days before
  day 100. The first page holds one of them and names page 3, page 3 holds the other
  three and names page 7. The branch has the commits \<open>a1\<close> (one parent), \<open>b2\<close> (a merge,
  two parents) and \<open>c1\<close> (one parent, also a commit of pull request 11).
\<close>

definition client_walk :: client where
  "client_walk = client0
     \<lparr> Repositories_ListCommits := (\<lambda>ow r t p.
          Inr ([commitN ''a1'' [''p0''], commitN ''b2'' [''a1'', ''c1''], commitN ''c1'' [''p0'']], 0)),
       PullRequests_List := (\<lambda>ow r s so d p.
          if p = 0 then Inr ([prN 11 (day 90) (day 99)], 3)
          else if p = 3
          then Inr ([prN 12 (day 80) (day 95), prN 13 (day 50) (day 60), prN 14 (day 40) (day 55)], 7)
          else Inr ([prN 15 (day 30) (day 35)], 0)),
       PullRequests_ListCommits := (\<lambda>ow r n p.
          if n = 11 then Inr ([commitN ''c1'' [''p0'']], 0)
          else if n = 12 then Inr ([commitN ''c2'' [''c1''], commitN ''c3'' [''c2'']], 0)
          else Inr ([commitN ''c9'' [''p0'']], 0)) \<rparr>"

text \<open>The listing of the branch commits fails on its second page; no pull requests.\<close>

definition client_branch_fails :: client where
  "client_branch_fails = client0
     \<lparr> Repositories_ListCommits := (\<lambda>ow r t p.
          if p = 0 then Inr ([commitN ''a1'' [''p0''], commitN ''b2'' [''a1'', ''c1'']], 4)
          else Inl (Error ''bad gateway'')),
       PullRequests_List := (\<lambda>ow r s so d p. Inr ([prN 11 (day 90) (day 99)], 0)),
       PullRequests_ListCommits := (\<lambda>ow r n p. Inr ([commitN ''c1'' [''p0'']], 0)) \<rparr>"

text \<open>The commits of pull request 11 cannot be listed, those of pull request 12 can.\<close>

definition client_pr_fails :: client where
  "client_pr_fails = client0
     \<lparr> Repositories_ListCommits := (\<lambda>ow r t p. Inr ([commitN ''a1'' [''p0'']], 0)),
       PullRequests_List := (\<lambda>ow r s so d p.
          Inr ([prN 11 (day 90) (day 99), prN 12 (day 80) (day 95)], 0)),
       PullRequests_ListCommits := (\<lambda>ow r n p.
          if n = 11 then Inl (Error ''timeout'')
          else Inr ([commitN ''c2'' [''c1'']], 0)) \<rparr>"

text \<open>The commits of pull request 11 come in two pages, numbered 0 and 2.\<close>

definition client_two_pages :: client where
  "client_two_pages = client0
     \<lparr> PullRequests_List := (\<lambda>ow r s so d p. Inr ([prN 11 (day 90) (day 99)], 0)),
       PullRequests_ListCommits := (\<lambda>ow r n p.
          if p = 0 then Inr ([commitN ''c1'' [''p0'']], 2)
          else if p = 2 then Inr ([commitN ''c2'' [''c1'']], 0)
          else Inl (Error ''not found'')) \<rparr>"

subsection \<open>Concrete organizations\<close>



text \<open>
  The repositories \<open>api\<close>, \<open>web\<close> and \<open>docs\<close>, all pushed within the last three days.
  The listing of the branch commits of \<open>api\<close> gives \<open>a1\<close> on its first page and fails
  on the second; the branch of \<open>web\<close> has \<open>c1\<close>, the branch of \<open>docs\<close> has \<open>d1\<close>.
  Pull request 11 with commit \<open>c1\<close> exists in every repository.
\<close>

definition client_down :: client where
  "client_down = client0
     \<lparr> Repositories_ListByOrg := (\<lambda>ow p.
          Inr ([repoN ''web'' (day 99), repoN ''api'' (day 98), repoN ''docs'' (day 97)], 0)),
       Repositories_ListCommits := (\<lambda>ow r t p.
          if r = ''api''
          then (if p = 0 then Inr ([commitN ''a1'' [''p0'']], 4) else Inl (Error ''bad gateway''))
          else if r = ''web'' then Inr ([commitN ''c1'' [''p0'']], 0)
          else Inr ([commitN ''d1'' [''p0'']], 0)),
       PullRequests_List := (\<lambda>ow r s so d p. Inr ([prN 11 (day 90) (day 99)], 0)),
       PullRequests_ListCommits := (\<lambda>ow r n p. Inr ([commitN ''c1'' [''p0'']], 0)) \<rparr>"

text \<open>
  The same repositories with a branch listing of \<open>api\<close> that succeeds, \<open>a1\<close> on its
  only page, and a pull request 11 whose commits cannot be listed in \<open>docs\<close>.
\<close>

definition client_walk_down :: client where
  "client_walk_down = client0
     \<lparr> Repositories_ListByOrg := (\<lambda>ow p.
          Inr ([repoN ''web'' (day 99), repoN ''api'' (day 98), repoN ''docs'' (day 97)], 0)),
       Repositories_ListCommits := (\<lambda>ow r t p.
          if r = ''api'' then Inr ([commitN ''a1'' [''p0'']], 0)
          else if r = ''web'' then Inr ([commitN ''c1'' [''p0'']], 0)
          else Inr ([commitN ''d1'' [''p0'']], 0)),
       PullRequests_List := (\<lambda>ow r s so d p. Inr ([prN 11 (day 90) (day 99)], 0)),
       PullRequests_ListCommits := (\<lambda>ow r n p.
          if r = ''docs'' then Inl (Error ''timeout'')
          else Inr ([commitN ''c1'' [''p0'']], 0)) \<rparr>"

subsection \<open>Concrete issues and open pull requests\<close>

text \<open>Four issues of one repository; the last one has no labels.\<close>

definition client_issues :: client where
  "client_issues = client0
     \<lparr> Issues_ListByRepo := (\<lambda>ow r a p.
          Inr ([issueN 7 [''Sprint'', ''In Progress''], issueN 8 [''Done''],
                issueN 9 [''question''], \<lparr> issue_Number = 10, Labels = None \<rparr>], 0)) \<rparr>"


text \<open>
  One active repository with two open pull requests, in the order of the listing:
  number 31 created 2 days before day 100, number 32 created 10 days before it.
\<close>

definition client_open :: client where
  "client_open = client0
     \<lparr> Repositories_ListByOrg := (\<lambda>ow p. Inr ([repoN ''api'' (day 99)], 0)),
       PullRequests_List := (\<lambda>ow r s so d p.
          Inr ([prN 31 (day 98) (day 98), prN 32 (day 90) (day 91)], 0)) \<rparr>"


section \<open>Paginated loading: results\<close>

lemma paginate_served:
  "served fetch page rs fin \<Longrightarrow>
   paginate fetch page all reqs = Some (all @ concat (map fst rs), fin, reqs @ requested page rs)"
proof (induction rs arbitrary: page all reqs)
  case Nil
  then show ?case by (subst paginate.simps) (auto split: option.splits)
next
  case (Cons r rs)
  obtain items nextPage where r: "r = (items, nextPage)" by (cases r)
  show ?case
  proof (cases "nextPage = 0")
    case True
    with Cons.prems r show ?thesis by (subst paginate.simps) auto
  next
    case False
    with Cons.prems r have s: "served fetch nextPage rs fin"
      and f: "fetch page = Inr (items, nextPage)" by auto
    show ?thesis using Cons.IH[OF s] f False r by (subst paginate.simps) simp
  qed
qed

lemma requested_length:
  "served fetch page rs fin \<Longrightarrow>
   length (requested page rs) = length rs + (if fin = None then 0 else 1)"
  by (induction rs arbitrary: page) (auto split: option.splits if_splits)

text \<open>
  C4. A paginated fetch returns the items of the pages in the order the provider
  served them, page after page. When the request after the pages \<open>rs\<close> fails, the loader
  returns the items of the pages \<open>rs\<close> together with that error, and it has sent one
  request per page and one for the failed page, so nothing was asked twice. This holds
  of each of the five loaders: \<open>loadIssuesForAssignee\<close>, \<open>loadIssuesForRepo\<close>,
  \<open>loadCommitsForRepo\<close>, \<open>loadReposForOrganization\<close> and \<open>loadPRsForRepo\<close>.
\<close>

theorem C4_paginator_concatenates_and_keeps_partial:
  "(served (Search_Issues c (''user:'' @ owner @ '' assignee:'' @ assignee)) 0 rs1 fin1 \<longrightarrow>
      loadIssuesForAssignee c owner assignee =
        Some (concat (map fst rs1), fin1,
              map (ReqSearchIssues (''user:'' @ owner @ '' assignee:'' @ assignee))
                (requested 0 rs1))
      \<and> length (requested 0 rs1) = length rs1 + (if fin1 = None then 0 else 1))
   \<and> (served (Issues_ListByRepo c owner repo assigned) 0 rs2 fin2 \<longrightarrow>
      loadIssuesForRepo c owner repo assigned =
        Some (concat (map fst rs2), fin2,
              map (ReqIssuesListByRepo owner repo assigned) (requested 0 rs2))
      \<and> length (requested 0 rs2) = length rs2 + (if fin2 = None then 0 else 1))
   \<and> (served (Repositories_ListCommits c owner repo timeLimit) 0 rs3 fin3 \<longrightarrow>
      loadCommitsForRepo c owner repo committer timeLimit =
        Some (concat (map fst rs3), fin3,
              map (ReqRepositoriesListCommits owner repo timeLimit) (requested 0 rs3))
      \<and> length (requested 0 rs3) = length rs3 + (if fin3 = None then 0 else 1))
   \<and> (served (Repositories_ListByOrg c owner) 0 rs4 fin4 \<longrightarrow>
      loadReposForOrganization c owner =
        Some (concat (map fst rs4), fin4, map (ReqRepositoriesListByOrg owner) (requested 0 rs4))
      \<and> length (requested 0 rs4) = length rs4 + (if fin4 = None then 0 else 1))
   \<and> (served (PullRequests_List c owner repo ''open'' [] []) 0 rs5 fin5 \<longrightarrow>
      loadPRsForRepo c owner repo =
        Some (concat (map fst rs5), fin5,
              map (ReqPullRequestsList owner repo ''open'' [] []) (requested 0 rs5))
      \<and> length (requested 0 rs5) = length rs5 + (if fin5 = None then 0 else 1))"
  by (simp add: loadIssuesForAssignee_def loadIssuesForRepo_def loadCommitsForRepo_def
      loadReposForOrganization_def loadPRsForRepo_def withRequests_def Let_def
      paginate_served requested_length)

theorem C4_witness:
  "served (Search_Issues client_pages (''user:'' @ ''org'' @ '' assignee:'' @ ''bob'')) 0
      [([issueN 4 [''bug'']], 2), ([issueN 5 [], issueN 6 [''done'']], 0)] None
   \<and> loadIssuesForAssignee client_pages ''org'' ''bob'' =
      Some ([issueN 4 [''bug''], issueN 5 [], issueN 6 [''done'']], None,
            [ReqSearchIssues ''user:org assignee:bob'' 0,
             ReqSearchIssues ''user:org assignee:bob'' 2])
   \<and> served (Issues_ListByRepo client_pages ''org'' ''repo'' []) 0
      [([issueN 1 [''bug''], issueN 2 []], 2), ([issueN 3 [''sprint'']], 3)]
      (Some (Error ''rate limit''))
   \<and> loadIssuesForRepo client_pages ''org'' ''repo'' [] =
      Some ([issueN 1 [''bug''], issueN 2 [], issueN 3 [''sprint'']], Some (Error ''rate limit''),
            [ReqIssuesListByRepo ''org'' ''repo'' [] 0, ReqIssuesListByRepo ''org'' ''repo'' [] 2,
             ReqIssuesListByRepo ''org'' ''repo'' [] 3])
   \<and> served (Repositories_ListCommits client_pages ''org'' ''repo'' (day 70)) 0
      [([commitN ''a1'' [''p0''], commitN ''b2'' [''a1'', ''c1'']], 3)]
      (Some (Error ''bad gateway''))
   \<and> loadCommitsForRepo client_pages ''org'' ''repo'' [] (day 70) =
      Some ([commitN ''a1'' [''p0''], commitN ''b2'' [''a1'', ''c1'']], Some (Error ''bad gateway''),
            [ReqRepositoriesListCommits ''org'' ''repo'' (day 70) 0,
             ReqRepositoriesListCommits ''org'' ''repo'' (day 70) 3])
   \<and> served (Repositories_ListByOrg client_pages ''org'') 0
      [([repoN ''Zeta'' (day 99)], 5),
       ([repoN ''alpha'' (day 60), repoN ''beta'' (day 95),
         repoN ''gamma'' (day 70)], 0)] None
   \<and> loadReposForOrganization client_pages ''org'' =
      Some ([repoN ''Zeta'' (day 99), repoN ''alpha'' (day 60),
             repoN ''beta'' (day 95), repoN ''gamma'' (day 70)], None,
            [ReqRepositoriesListByOrg ''org'' 0, ReqRepositoriesListByOrg ''org'' 5])
   \<and> served (PullRequests_List client_pages ''org'' ''repo'' ''open'' [] []) 0
      [([prN 31 (day 98) (day 98)], 2), ([prN 32 (day 90) (day 91)], 0)] None
   \<and> loadPRsForRepo client_pages ''org'' ''repo'' =
      Some ([prN 31 (day 98) (day 98), prN 32 (day 90) (day 91)], None,
            [ReqPullRequestsList ''org'' ''repo'' ''open'' [] [] 0,
             ReqPullRequestsList ''org'' ''repo'' ''open'' [] [] 2])"
proof -
  have s1: "served (Search_Issues client_pages (''user:'' @ ''org'' @ '' assignee:'' @ ''bob'')) 0
      [([issueN 4 [''bug'']], 2), ([issueN 5 [], issueN 6 [''done'']], 0)] None"
    by (simp add: client_pages_def client0_def)
  have s2: "served (Issues_ListByRepo client_pages ''org'' ''repo'' []) 0
      [([issueN 1 [''bug''], issueN 2 []], 2), ([issueN 3 [''sprint'']], 3)]
      (Some (Error ''rate limit''))"
    by (simp add: client_pages_def client0_def)
  have s3: "served (Repositories_ListCommits client_pages ''org'' ''repo'' (day 70)) 0
      [([commitN ''a1'' [''p0''], commitN ''b2'' [''a1'', ''c1'']], 3)]
      (Some (Error ''bad gateway''))"
    by (simp add: client_pages_def client0_def)
  have s4: "served (Repositories_ListByOrg client_pages ''org'') 0
      [([repoN ''Zeta'' (day 99)], 5),
       ([repoN ''alpha'' (day 60), repoN ''beta'' (day 95),
         repoN ''gamma'' (day 70)], 0)] None"
    by (simp add: client_pages_def client0_def)
  have s5: "served (PullRequests_List client_pages ''org'' ''repo'' ''open'' [] []) 0
      [([prN 31 (day 98) (day 98)], 2), ([prN 32 (day 90) (day 91)], 0)] None"
    by (simp add: client_pages_def client0_def)
  show ?thesis
    using s1 s2 s3 s4 s5
      C4_paginator_concatenates_and_keeps_partial
        [where c = client_pages and owner = "''org''" and assignee = "''bob''"
           and repo = "''repo''" and assigned = "[]" and timeLimit = "day 70"
           and committer = "[]"
           and ?rs1.0 = "[([issueN 4 [''bug'']], 2), ([issueN 5 [], issueN 6 [''done'']], 0)]"
           and ?fin1.0 = None
           and ?rs2.0 = "[([issueN 1 [''bug''], issueN 2 []], 2), ([issueN 3 [''sprint'']], 3)]"
           and ?fin2.0 = "Some (Error ''rate limit'')"
           and ?rs3.0 = "[([commitN ''a1'' [''p0''], commitN ''b2'' [''a1'', ''c1'']], 3)]"
           and ?fin3.0 = "Some (Error ''bad gateway'')"
           and ?rs4.0 = "[([repoN ''Zeta'' (day 99)], 5),
                          ([repoN ''alpha'' (day 60), repoN ''beta'' (day 95),
                            repoN ''gamma'' (day 70)], 0)]"
           and ?fin4.0 = None
           and ?rs5.0 = "[([prN 31 (day 98) (day 98)], 2), ([prN 32 (day 90) (day 91)], 0)]"
           and ?fin5.0 = None]
    by simp
qed

section \<open>The walk over the pull requests: results\<close>

lemma pooled_append:
  "pooled c owner repo (xs @ ys) = pooled c owner repo xs @ pooled c owner repo ys"
  by (simp add: pooled_def)

lemma recorded_append:
  "recorded c owner repo (xs @ ys) e = recorded c owner repo ys (recorded c owner repo xs e)"
  by (induction xs arbitrary: e) simp_all

lemma recorded_Some: "\<exists>err'. recorded c owner repo prs (Some err) = Some err'"
  by (induction prs arbitrary: err) (auto split: sum.splits)

lemma range_char:
  "loadCommitsFromAllRepoPRs_range c owner repo tlim prs all e reqs =
     (all @ pooled c owner repo (takeWhile (\<lambda>pr. \<not> older tlim pr) prs),
      recorded c owner repo (takeWhile (\<lambda>pr. \<not> older tlim pr) prs) e,
      (\<exists>pr\<in>set prs. older tlim pr),
      reqs @ commitRequests owner repo (takeWhile (\<lambda>pr. \<not> older tlim pr) prs))"
proof (induction prs arbitrary: all e reqs)
  case Nil
  show ?case by (simp add: pooled_def commitRequests_def)
next
  case (Cons pr prs)
  show ?case
  proof (cases "older tlim pr")
    case True
    then show ?thesis by (simp add: older_def After_def pooled_def commitRequests_def)
  next
    case False
    then have na: "\<not> (After tlim (CreatedAt pr) \<and> After tlim (UpdatedAt pr))"
      by (simp add: older_def After_def)
    show ?thesis
    proof (cases "PullRequests_ListCommits c owner repo (Number pr) 0")
      case (Inl err)
      then show ?thesis using False na Cons.IH
        by (simp add: pooled_def commitRequests_def)
    next
      case (Inr r)
      then show ?thesis using False na Cons.IH
        by (cases r) (simp add: pooled_def commitRequests_def)
    qed
  qed
qed

lemma walk_stops:
  assumes "follows (PullRequests_List c owner repo ''open,closed'' ''updated'' ''desc'') page rs q"
    and "\<forall>pr\<in>set (concat (map fst rs)). \<not> older tlim pr"
    and "PullRequests_List c owner repo ''open,closed'' ''updated'' ''desc'' q = Inr (prs, nextPage)"
    and "nextPage = 0 \<or> (\<exists>pr\<in>set prs. older tlim pr)"
  shows "loadCommitsFromAllRepoPRs_loop c owner repo tlim page all e reqs =
     Some (all @ pooled c owner repo (concat (map fst rs) @ takeWhile (\<lambda>pr. \<not> older tlim pr) prs),
           recorded c owner repo (concat (map fst rs) @ takeWhile (\<lambda>pr. \<not> older tlim pr) prs) e,
           reqs @ walkRequests owner repo page
                    (rs @ [(takeWhile (\<lambda>pr. \<not> older tlim pr) prs, nextPage)]))"
  using assms
proof (induction rs arbitrary: page all e reqs)
  case Nil
  then show ?case
    by (subst loadCommitsFromAllRepoPRs_loop.simps) (auto simp: range_char)
next
  case (Cons r rs)
  obtain items np where r: "r = (items, np)" by (cases r)
  from Cons.prems r
  have f: "PullRequests_List c owner repo ''open,closed'' ''updated'' ''desc'' page = Inr (items, np)"
    and np: "np \<noteq> 0"
    and fo: "follows (PullRequests_List c owner repo ''open,closed'' ''updated'' ''desc'') np rs q"
    and no: "\<forall>pr\<in>set items. \<not> older tlim pr"
    and no': "\<forall>pr\<in>set (concat (map fst rs)). \<not> older tlim pr"
    by auto
  from no have tw: "takeWhile (\<lambda>pr. \<not> older tlim pr) items = items" by simp
  note IH = Cons.IH[OF fo no' Cons.prems(3) Cons.prems(4)]
  show ?case
    using f np no r
    by (subst loadCommitsFromAllRepoPRs_loop.simps)
       (simp add: range_char IH pooled_append recorded_append tw)
qed

lemma walk_fails:
  assumes "follows (PullRequests_List c owner repo ''open,closed'' ''updated'' ''desc'') page rs q"
    and "\<forall>pr\<in>set (concat (map fst rs)). \<not> older tlim pr"
    and "PullRequests_List c owner repo ''open,closed'' ''updated'' ''desc'' q = Inl err"
  shows "loadCommitsFromAllRepoPRs_loop c owner repo tlim page all e reqs =
     Some (all @ pooled c owner repo (concat (map fst rs)), Some err,
           reqs @ walkRequests owner repo page rs
             @ [ReqPullRequestsList owner repo ''open,closed'' ''updated'' ''desc'' q])"
  using assms
proof (induction rs arbitrary: page all e reqs)
  case Nil
  then show ?case
    by (subst loadCommitsFromAllRepoPRs_loop.simps) (auto simp: pooled_def)
next
  case (Cons r rs)
  obtain items np where r: "r = (items, np)" by (cases r)
  from Cons.prems r
  have f: "PullRequests_List c owner repo ''open,closed'' ''updated'' ''desc'' page = Inr (items, np)"
    and np: "np \<noteq> 0"
    and fo: "follows (PullRequests_List c owner repo ''open,closed'' ''updated'' ''desc'') np rs q"
    and no: "\<forall>pr\<in>set items. \<not> older tlim pr"
    and no': "\<forall>pr\<in>set (concat (map fst rs)). \<not> older tlim pr"
    by auto
  from no have tw: "takeWhile (\<lambda>pr. \<not> older tlim pr) items = items" by simp
  note IH = Cons.IH[OF fo no' Cons.prems(3)]
  show ?case
    using f np no r
    by (subst loadCommitsFromAllRepoPRs_loop.simps)
       (simp add: range_char IH pooled_append recorded_append tw)
qed

section \<open>Commits pushed to the branch directly: results\<close>

lemma isCommitInList_iff: "isCommitInList x l \<longleftrightarrow> SHA x \<in> SHA ` set l"
  by (induction l) auto

lemma masterCommits_range_filter:
  "masterCommitsForSingleRepo_range lambda commits pool acc =
     acc @ filter (\<lambda>x. length (Parents x) \<le> 1 \<and> \<not> lambda x pool) commits"
  by (induction commits arbitrary: acc) auto

lemma time_limit_ex: "time_AddDate env_ex (time_Now env_ex) 0 0 (- 30) = day 70"
  by (simp add: env_ex_def day_def)


lemma walk_branch_ex:
  "loadCommitsForRepo client_walk ''org'' ''repo'' [] (day 70) =
     Some ([commitN ''a1'' [''p0''], commitN ''b2'' [''a1'', ''c1''], commitN ''c1'' [''p0'']], None,
           [ReqRepositoriesListCommits ''org'' ''repo'' (day 70) 0])"
  by (simp add: loadCommitsForRepo_def withRequests_def paginate.simps client_walk_def client0_def)

lemma walk_prs_ex:
  "loadCommitsFromAllRepoPRs client_walk ''org'' ''repo'' (day 70) =
     Some ([commitN ''c1'' [''p0''], commitN ''c2'' [''c1''], commitN ''c3'' [''c2'']], None,
           [ReqPullRequestsList ''org'' ''repo'' ''open,closed'' ''updated'' ''desc'' 0,
            ReqPullRequestsListCommits ''org'' ''repo'' 11 0,
            ReqPullRequestsList ''org'' ''repo'' ''open,closed'' ''updated'' ''desc'' 3,
            ReqPullRequestsListCommits ''org'' ''repo'' 12 0])"
  by (simp add: loadCommitsFromAllRepoPRs_def loadCommitsFromAllRepoPRs_loop.simps
      client_walk_def client0_def prN_def After_def day_def)


text \<open>
  C1. With the commit list of the branch and the pool of pull-request commits as they
  were loaded (the walk over the pull requests having recorded no error), the direct
  commits are the branch commits, in their order, that have at most one parent and whose
  SHA is the SHA of no commit of the pool; the count returned is the number of all
  branch commits loaded.
\<close>

theorem C1_direct_commits_classification:
  assumes "loadCommitsForRepo c owner repo committer
             (time_AddDate ev (time_Now ev) 0 0 (- days)) = Some (commits, err0, reqs1)"
    and "loadCommitsFromAllRepoPRs c owner repo
             (time_AddDate ev (time_Now ev) 0 0 (- days)) = Some (allPRCommits, None, reqs2)"
  shows "\<exists>masterCommits.
           masterCommitsForSingleRepo ev c owner repo committer isCommitInList days =
             Some (masterCommits, int (length commits), None, reqs1 @ reqs2)
           \<and> masterCommits =
               filter (\<lambda>x. length (Parents x) \<le> 1 \<and> SHA x \<notin> SHA ` set allPRCommits) commits
           \<and> (\<forall>x. x \<in> set masterCommits \<longleftrightarrow>
                    x \<in> set commits \<and> length (Parents x) \<le> 1
                    \<and> (\<forall>y\<in>set allPRCommits. SHA x \<noteq> SHA y))"
  using assms
  by (auto simp: masterCommitsForSingleRepo_def Let_def masterCommits_range_filter
      isCommitInList_iff)

theorem C1_witness:
  "loadCommitsForRepo client_walk ''org'' ''repo'' []
       (time_AddDate env_ex (time_Now env_ex) 0 0 (- 30)) =
     Some ([commitN ''a1'' [''p0''], commitN ''b2'' [''a1'', ''c1''], commitN ''c1'' [''p0'']], None,
           [ReqRepositoriesListCommits ''org'' ''repo'' (day 70) 0])
   \<and> fst (the (loadCommitsFromAllRepoPRs client_walk ''org'' ''repo''
       (time_AddDate env_ex (time_Now env_ex) 0 0 (- 30)))) =
       [commitN ''c1'' [''p0''], commitN ''c2'' [''c1''], commitN ''c3'' [''c2'']]
   \<and> fst (the (masterCommitsForSingleRepo env_ex client_walk ''org'' ''repo'' [] isCommitInList 30)) =
       [commitN ''a1'' [''p0'']]
   \<and> fst (snd (the (masterCommitsForSingleRepo env_ex client_walk ''org'' ''repo'' [] isCommitInList 30))) = 3"
  using C1_direct_commits_classification [of client_walk "''org''" "''repo''" "[]" env_ex 30,
      unfolded time_limit_ex, OF walk_branch_ex walk_prs_ex]
  by (auto simp: time_limit_ex walk_branch_ex walk_prs_ex commitN_def)

text \<open>
  C10. When the listing of the branch commits fails after the pages \<open>rs\<close> and the walk
  over the pull requests records no error, \<open>masterCommitsForSingleRepo\<close> reports no
  error: the error of the first fetch is lost, and the direct commits and the count are
  computed from the commits of the pages \<open>rs\<close> that were loaded before the failure.
\<close>

theorem C10_branch_fetch_error_is_discarded:
  assumes "served (Repositories_ListCommits c owner repo
                     (time_AddDate ev (time_Now ev) 0 0 (- days))) 0 rs (Some err0)"
    and "loadCommitsFromAllRepoPRs c owner repo
           (time_AddDate ev (time_Now ev) 0 0 (- days)) = Some (allPRCommits, None, reqs2)"
  shows "loadCommitsForRepo c owner repo committer (time_AddDate ev (time_Now ev) 0 0 (- days)) =
           Some (concat (map fst rs), Some err0,
                 map (ReqRepositoriesListCommits owner repo
                        (time_AddDate ev (time_Now ev) 0 0 (- days))) (requested 0 rs))
         \<and> masterCommitsForSingleRepo ev c owner repo committer lambda days =
           Some (filter (\<lambda>x. length (Parents x) \<le> 1 \<and> \<not> lambda x allPRCommits) (concat (map fst rs)),
                 int (length (concat (map fst rs))), None,
                 map (ReqRepositoriesListCommits owner repo
                        (time_AddDate ev (time_Now ev) 0 0 (- days))) (requested 0 rs) @ reqs2)"
proof -
  have l: "loadCommitsForRepo c owner repo committer (time_AddDate ev (time_Now ev) 0 0 (- days)) =
           Some (concat (map fst rs), Some err0,
                 map (ReqRepositoriesListCommits owner repo
                        (time_AddDate ev (time_Now ev) 0 0 (- days))) (requested 0 rs))"
    using paginate_served[OF assms(1), of "[]" "[]"]
    by (simp add: loadCommitsForRepo_def withRequests_def)
  show ?thesis
    using l assms(2)
    by (simp add: masterCommitsForSingleRepo_def Let_def masterCommits_range_filter)
qed


theorem C10_witness:
  "served (Repositories_ListCommits client_branch_fails ''org'' ''repo''
            (time_AddDate env_ex (time_Now env_ex) 0 0 (- 30))) 0
      [([commitN ''a1'' [''p0''], commitN ''b2'' [''a1'', ''c1'']], 4)] (Some (Error ''bad gateway''))
   \<and> loadCommitsFromAllRepoPRs client_branch_fails ''org'' ''repo''
        (time_AddDate env_ex (time_Now env_ex) 0 0 (- 30)) =
      Some ([commitN ''c1'' [''p0'']], None,
            [ReqPullRequestsList ''org'' ''repo'' ''open,closed'' ''updated'' ''desc'' 0,
             ReqPullRequestsListCommits ''org'' ''repo'' 11 0])
   \<and> masterCommitsForSingleRepo env_ex client_branch_fails ''org'' ''repo'' [] isCommitInList 30 =
      Some ([commitN ''a1'' [''p0'']], 2, None,
            [ReqRepositoriesListCommits ''org'' ''repo'' (day 70) 0,
             ReqRepositoriesListCommits ''org'' ''repo'' (day 70) 4,
             ReqPullRequestsList ''org'' ''repo'' ''open,closed'' ''updated'' ''desc'' 0,
             ReqPullRequestsListCommits ''org'' ''repo'' 11 0])"
proof -
  have s: "served (Repositories_ListCommits client_branch_fails ''org'' ''repo''
            (time_AddDate env_ex (time_Now env_ex) 0 0 (- 30))) 0
      [([commitN ''a1'' [''p0''], commitN ''b2'' [''a1'', ''c1'']], 4)] (Some (Error ''bad gateway''))"
    by (simp add: client_branch_fails_def client0_def)
  have p: "loadCommitsFromAllRepoPRs client_branch_fails ''org'' ''repo''
        (time_AddDate env_ex (time_Now env_ex) 0 0 (- 30)) =
      Some ([commitN ''c1'' [''p0'']], None,
            [ReqPullRequestsList ''org'' ''repo'' ''open,closed'' ''updated'' ''desc'' 0,
             ReqPullRequestsListCommits ''org'' ''repo'' 11 0])"
    by (simp add: loadCommitsFromAllRepoPRs_def loadCommitsFromAllRepoPRs_loop.simps
        client_branch_fails_def client0_def prN_def After_def day_def env_ex_def)
  show ?thesis
    using s p C10_branch_fetch_error_is_discarded [OF s p, of "[]" isCommitInList]
    by (simp add: time_limit_ex commitN_def)
qed


text \<open>
  C5. In the walk of \<open>loadCommitsFromAllRepoPRs\<close>, let \<open>old\<close> be the first pull request
  created and last updated before the time limit: it comes after the pages \<open>rs\<close> and
  after the pull requests \<open>before\<close> of its own page, none of which is older. Then the walk
  returns, and the requests it has sent are the page requests for \<open>rs\<close> and for the page
  of \<open>old\<close>, each followed by one commit request per pull request of \<open>rs\<close> and of
  \<open>before\<close>, and nothing else: no commit request for \<open>old\<close> or for a pull request
  after it, and no request for the page \<open>nextPage\<close> that the page of \<open>old\<close> names.
\<close>

theorem C5_walk_stops_at_first_older_pull_request:
  assumes "follows (PullRequests_List c owner repo ''open,closed'' ''updated'' ''desc'') 0 rs q"
    and "\<forall>pr\<in>set (concat (map fst rs)). \<not> older timeLimit pr"
    and "PullRequests_List c owner repo ''open,closed'' ''updated'' ''desc'' q =
           Inr (before @ old # rest, nextPage)"
    and "\<forall>pr\<in>set before. \<not> older timeLimit pr"
    and "older timeLimit old"
  shows "loadCommitsFromAllRepoPRs c owner repo timeLimit =
           Some (pooled c owner repo (concat (map fst rs) @ before),
                 recorded c owner repo (concat (map fst rs) @ before) None,
                 walkRequests owner repo 0 (rs @ [(before, nextPage)]))"
proof -
  have tw: "takeWhile (\<lambda>pr. \<not> older timeLimit pr) (before @ old # rest) = before"
    using assms(4,5) by simp
  have ex: "nextPage = 0 \<or> (\<exists>pr\<in>set (before @ old # rest). older timeLimit pr)"
    using assms(5) by auto
  show ?thesis
    using walk_stops[OF assms(1) assms(2) assms(3) ex, of "[]" None "[]"]
    by (simp add: loadCommitsFromAllRepoPRs_def tw)
qed


theorem C5_witness:
  "follows (PullRequests_List client_walk ''org'' ''repo'' ''open,closed'' ''updated'' ''desc'') 0
      [([prN 11 (day 90) (day 99)], 3)] 3
   \<and> \<not> older (day 70) (prN 11 (day 90) (day 99))
   \<and> PullRequests_List client_walk ''org'' ''repo'' ''open,closed'' ''updated'' ''desc'' 3 =
       Inr ([prN 12 (day 80) (day 95)] @ prN 13 (day 50) (day 60) # [prN 14 (day 40) (day 55)], 7)
   \<and> \<not> older (day 70) (prN 12 (day 80) (day 95))
   \<and> older (day 70) (prN 13 (day 50) (day 60))
   \<and> loadCommitsFromAllRepoPRs client_walk ''org'' ''repo'' (day 70) =
       Some ([commitN ''c1'' [''p0''], commitN ''c2'' [''c1''], commitN ''c3'' [''c2'']], None,
             [ReqPullRequestsList ''org'' ''repo'' ''open,closed'' ''updated'' ''desc'' 0,
              ReqPullRequestsListCommits ''org'' ''repo'' 11 0,
              ReqPullRequestsList ''org'' ''repo'' ''open,closed'' ''updated'' ''desc'' 3,
              ReqPullRequestsListCommits ''org'' ''repo'' 12 0])"
proof -
  have f: "follows (PullRequests_List client_walk ''org'' ''repo'' ''open,closed'' ''updated'' ''desc'') 0
      [([prN 11 (day 90) (day 99)], 3)] 3"
    by (simp add: client_walk_def client0_def)
  have n: "\<forall>pr\<in>set (concat (map fst [([prN 11 (day 90) (day 99)], 3::nat)])). \<not> older (day 70) pr"
    by (simp add: older_def prN_def day_def)
  have p: "PullRequests_List client_walk ''org'' ''repo'' ''open,closed'' ''updated'' ''desc'' 3 =
       Inr ([prN 12 (day 80) (day 95)] @ prN 13 (day 50) (day 60) # [prN 14 (day 40) (day 55)], 7)"
    by (simp add: client_walk_def client0_def)
  have b: "\<forall>pr\<in>set [prN 12 (day 80) (day 95)]. \<not> older (day 70) pr"
    by (simp add: older_def prN_def day_def)
  have ol: "older (day 70) (prN 13 (day 50) (day 60))"
    by (simp add: older_def prN_def day_def)
  have c: "PullRequests_ListCommits client_walk ''org'' ''repo'' 11 0 = Inr ([commitN ''c1'' [''p0'']], 0)"
    "PullRequests_ListCommits client_walk ''org'' ''repo'' 12 0 =
       Inr ([commitN ''c2'' [''c1''], commitN ''c3'' [''c2'']], 0)"
    by (simp_all add: client_walk_def client0_def)
  show ?thesis
    using f n p b ol C5_walk_stops_at_first_older_pull_request [OF f n p b ol]
    by (simp add: pooled_def commitRequests_def c prN_def)
qed

lemma pr_fails_branch_ex:
  "loadCommitsForRepo client_pr_fails ''org'' ''repo'' [] (day 70) =
     Some ([commitN ''a1'' [''p0'']], None, [ReqRepositoriesListCommits ''org'' ''repo'' (day 70) 0])"
  by (simp add: loadCommitsForRepo_def withRequests_def paginate.simps client_pr_fails_def
      client0_def)

lemma pr_fails_prs_ex:
  "loadCommitsFromAllRepoPRs client_pr_fails ''org'' ''repo'' (day 70) =
     Some ([commitN ''c2'' [''c1'']], Some (Error ''timeout''),
           [ReqPullRequestsList ''org'' ''repo'' ''open,closed'' ''updated'' ''desc'' 0,
            ReqPullRequestsListCommits ''org'' ''repo'' 11 0,
            ReqPullRequestsListCommits ''org'' ''repo'' 12 0])"
  by (simp add: loadCommitsFromAllRepoPRs_def loadCommitsFromAllRepoPRs_loop.simps
      client_pr_fails_def client0_def prN_def After_def day_def)


text \<open>
  C3, as the code has it. Let the walk over the pull requests end normally, and let
  the commit listing of the walked pull request \<open>bad\<close> fail with \<open>err\<close>. Then the walk
  still sends the commit request of every walked pull request after \<open>bad\<close> and pools
  their commits; it returns the pool together with an error, the one of the last failed
  commit listing. \<open>masterCommitsForSingleRepo\<close> then returns that error with an empty
  slice and the count 0: it computes no direct commits.
\<close>

theorem C3_failed_commit_fetch_is_recorded_and_ends_the_repository:
  assumes "follows (PullRequests_List c owner repo ''open,closed'' ''updated'' ''desc'') 0 rs q"
    and "\<forall>pr\<in>set (concat (map fst rs)). \<not> older (time_AddDate ev (time_Now ev) 0 0 (- days)) pr"
    and "PullRequests_List c owner repo ''open,closed'' ''updated'' ''desc'' q = Inr (prs, nextPage)"
    and "nextPage = 0 \<or> (\<exists>pr\<in>set prs. older (time_AddDate ev (time_Now ev) 0 0 (- days)) pr)"
    and "concat (map fst rs)
           @ takeWhile (\<lambda>pr. \<not> older (time_AddDate ev (time_Now ev) 0 0 (- days)) pr) prs =
         before @ bad # rest"
    and "PullRequests_ListCommits c owner repo (Number bad) 0 = Inl err"
    and "loadCommitsForRepo c owner repo committer (time_AddDate ev (time_Now ev) 0 0 (- days)) =
           Some (commits, err0, reqs1)"
  shows "\<exists>err' reqs2.
           recorded c owner repo rest (Some err) = Some err'
           \<and> reqs2 = walkRequests owner repo 0
                (rs @ [(takeWhile (\<lambda>pr. \<not> older (time_AddDate ev (time_Now ev) 0 0 (- days)) pr) prs,
                        nextPage)])
           \<and> loadCommitsFromAllRepoPRs c owner repo (time_AddDate ev (time_Now ev) 0 0 (- days)) =
               Some (pooled c owner repo before @ pooled c owner repo rest, Some err', reqs2)
           \<and> masterCommitsForSingleRepo ev c owner repo committer lambda days =
               Some ([], 0, Some err', reqs1 @ reqs2)"
proof -
  let ?tl = "time_AddDate ev (time_Now ev) 0 0 (- days)"
  obtain err' where e: "recorded c owner repo rest (Some err) = Some err'"
    using recorded_Some by blast
  have pb: "pooled c owner repo (before @ bad # rest) =
              pooled c owner repo before @ pooled c owner repo rest"
    using assms(6) by (simp add: pooled_def)
  have rb: "recorded c owner repo (before @ bad # rest) None = Some err'"
    using assms(6) e by (simp add: recorded_append)
  have w: "loadCommitsFromAllRepoPRs c owner repo ?tl =
      Some (pooled c owner repo before @ pooled c owner repo rest, Some err',
            walkRequests owner repo 0 (rs @ [(takeWhile (\<lambda>pr. \<not> older ?tl pr) prs, nextPage)]))"
    using walk_stops[OF assms(1) assms(2) assms(3) assms(4), of "[]" None "[]"]
    by (simp add: loadCommitsFromAllRepoPRs_def assms(5) pb rb)
  show ?thesis
    using e w assms(7) by (simp add: masterCommitsForSingleRepo_def Let_def)
qed


theorem C3_witness:
  "follows (PullRequests_List client_pr_fails ''org'' ''repo'' ''open,closed'' ''updated'' ''desc'')
      0 [] 0
   \<and> PullRequests_List client_pr_fails ''org'' ''repo'' ''open,closed'' ''updated'' ''desc'' 0 =
       Inr ([prN 11 (day 90) (day 99), prN 12 (day 80) (day 95)], 0)
   \<and> PullRequests_ListCommits client_pr_fails ''org'' ''repo'' (Number (prN 11 (day 90) (day 99))) 0
       = Inl (Error ''timeout'')
   \<and> loadCommitsFromAllRepoPRs client_pr_fails ''org'' ''repo''
        (time_AddDate env_ex (time_Now env_ex) 0 0 (- 30)) =
       Some ([commitN ''c2'' [''c1'']], Some (Error ''timeout''),
             [ReqPullRequestsList ''org'' ''repo'' ''open,closed'' ''updated'' ''desc'' 0,
              ReqPullRequestsListCommits ''org'' ''repo'' 11 0,
              ReqPullRequestsListCommits ''org'' ''repo'' 12 0])
   \<and> masterCommitsForSingleRepo env_ex client_pr_fails ''org'' ''repo'' [] isCommitInList 30 =
       Some ([], 0, Some (Error ''timeout''),
             [ReqRepositoriesListCommits ''org'' ''repo'' (day 70) 0,
              ReqPullRequestsList ''org'' ''repo'' ''open,closed'' ''updated'' ''desc'' 0,
              ReqPullRequestsListCommits ''org'' ''repo'' 11 0,
              ReqPullRequestsListCommits ''org'' ''repo'' 12 0])"
proof -
  let ?tl = "time_AddDate env_ex (time_Now env_ex) 0 0 (- 30)"
  let ?prs = "[prN 11 (day 90) (day 99), prN 12 (day 80) (day 95)]"
  have f: "follows (PullRequests_List client_pr_fails ''org'' ''repo'' ''open,closed'' ''updated'' ''desc'')
      0 [] 0" by simp
  have n: "\<forall>pr\<in>set (concat (map fst ([] :: (pullRequest list \<times> nat) list))). \<not> older ?tl pr"
    by simp
  have p: "PullRequests_List client_pr_fails ''org'' ''repo'' ''open,closed'' ''updated'' ''desc'' 0 =
       Inr (?prs, 0)"
    by (simp add: client_pr_fails_def client0_def)
  have z: "(0::nat) = 0 \<or> (\<exists>pr\<in>set ?prs. older ?tl pr)" by simp
  have s: "concat (map fst ([] :: (pullRequest list \<times> nat) list))
             @ takeWhile (\<lambda>pr. \<not> older ?tl pr) ?prs
           = [] @ prN 11 (day 90) (day 99) # [prN 12 (day 80) (day 95)]"
    by (simp add: older_def prN_def day_def time_limit_ex)
  have b: "PullRequests_ListCommits client_pr_fails ''org'' ''repo'' (Number (prN 11 (day 90) (day 99))) 0
       = Inl (Error ''timeout'')"
    by (simp add: client_pr_fails_def client0_def prN_def)
  have l: "loadCommitsForRepo client_pr_fails ''org'' ''repo'' [] ?tl =
     Some ([commitN ''a1'' [''p0'']], None, [ReqRepositoriesListCommits ''org'' ''repo'' (day 70) 0])"
    by (simp add: time_limit_ex pr_fails_branch_ex)
  have c12: "PullRequests_ListCommits client_pr_fails ''org'' ''repo'' 12 0 = Inr ([commitN ''c2'' [''c1'']], 0)"
    by (simp add: client_pr_fails_def client0_def)
  show ?thesis
    using f p b
      C3_failed_commit_fetch_is_recorded_and_ends_the_repository
        [OF f n p z s b l, of isCommitInList]
    by (simp add: pooled_def commitRequests_def c12 prN_def time_limit_ex older_def day_def)
qed


text \<open>
  C3 as stated fails: with the branch commit \<open>a1\<close>, the failing pull request 11 and
  the pull request 12 with commit \<open>c2\<close>, the classification of the branch commits
  against the pool would give \<open>a1\<close>, but \<open>masterCommitsForSingleRepo\<close> returns no commit,
  the count 0 and the error.
\<close>

theorem C3_counterexample:
  "loadCommitsForRepo client_pr_fails ''org'' ''repo'' []
       (time_AddDate env_ex (time_Now env_ex) 0 0 (- 30)) =
     Some ([commitN ''a1'' [''p0'']], None, [ReqRepositoriesListCommits ''org'' ''repo'' (day 70) 0])
   \<and> loadCommitsFromAllRepoPRs client_pr_fails ''org'' ''repo''
       (time_AddDate env_ex (time_Now env_ex) 0 0 (- 30)) =
     Some ([commitN ''c2'' [''c1'']], Some (Error ''timeout''),
           [ReqPullRequestsList ''org'' ''repo'' ''open,closed'' ''updated'' ''desc'' 0,
            ReqPullRequestsListCommits ''org'' ''repo'' 11 0,
            ReqPullRequestsListCommits ''org'' ''repo'' 12 0])
   \<and> masterCommitsForSingleRepo_range isCommitInList [commitN ''a1'' [''p0'']]
       [commitN ''c2'' [''c1'']] [] = [commitN ''a1'' [''p0'']]
   \<and> masterCommitsForSingleRepo env_ex client_pr_fails ''org'' ''repo'' [] isCommitInList 30 =
     Some ([], 0, Some (Error ''timeout''),
           [ReqRepositoriesListCommits ''org'' ''repo'' (day 70) 0,
            ReqPullRequestsList ''org'' ''repo'' ''open,closed'' ''updated'' ''desc'' 0,
            ReqPullRequestsListCommits ''org'' ''repo'' 11 0,
            ReqPullRequestsListCommits ''org'' ''repo'' 12 0])"
  by (simp add: masterCommitsForSingleRepo_def Let_def time_limit_ex pr_fails_branch_ex
      pr_fails_prs_ex commitN_def)


text \<open>
  C6 on the code: pull request 11 qualifies for the time window and its commit listing
  has two pages, \<open>c1\<close> on page 0 (which names page 2) and \<open>c2\<close> on page 2. The walk
  sends one commit request, for page 0, and the pool holds \<open>c1\<close> only.
\<close>

theorem C6_only_first_page_of_pull_request_commits_is_loaded:
  "PullRequests_List client_two_pages ''org'' ''repo'' ''open,closed'' ''updated'' ''desc'' 0 =
     Inr ([prN 11 (day 90) (day 99)], 0)
   \<and> \<not> older (day 70) (prN 11 (day 90) (day 99))
   \<and> PullRequests_ListCommits client_two_pages ''org'' ''repo'' 11 0 =
       Inr ([commitN ''c1'' [''p0'']], 2)
   \<and> PullRequests_ListCommits client_two_pages ''org'' ''repo'' 11 2 =
       Inr ([commitN ''c2'' [''c1'']], 0)
   \<and> loadCommitsFromAllRepoPRs client_two_pages ''org'' ''repo'' (day 70) =
       Some ([commitN ''c1'' [''p0'']], None,
             [ReqPullRequestsList ''org'' ''repo'' ''open,closed'' ''updated'' ''desc'' 0,
              ReqPullRequestsListCommits ''org'' ''repo'' 11 0])"
  by (simp add: loadCommitsFromAllRepoPRs_def loadCommitsFromAllRepoPRs_loop.simps
      client_two_pages_def client0_def prN_def After_def older_def day_def)

section \<open>Arithmetic on float64: results\<close>


lemma roundToEven_upper: "of_int (roundToEven y) \<le> y + 1 / 2"
  unfolding roundToEven_def Let_def by (auto; linarith)

lemma roundToEven_of_int [simp]: "roundToEven (of_int n) = n"
  by (simp add: roundToEven_def)


lemma ilog2_bounds:
  assumes "x \<noteq> 0"
  shows "power_int 2 (ilog2 x) \<le> \<bar>x\<bar>" and "\<bar>x\<bar> < power_int 2 (ilog2 x + 1)"
proof -
  obtain p q where pq: "quotient_of \<bar>x\<bar> = (p, q)" by (cases "quotient_of \<bar>x\<bar>")
  have q: "0 < q" using pq by (rule quotient_of_denom_pos)
  have x: "\<bar>x\<bar> = of_int p / of_int q" using pq by (rule quotient_of_div)
  have "0 < \<bar>x\<bar>" using assms by simp
  then have p: "0 < p" using x q by (simp add: zero_less_divide_iff)
  define a where "a = bitlen p"
  define b where "b = bitlen q"
  have a1: "1 \<le> a" using p by (simp add: a_def bitlen_alt_def)
  have b1: "1 \<le> b" using q by (simp add: b_def bitlen_alt_def)
  have pa: "(2::int) ^ nat (a - 1) \<le> p" "p < 2 ^ nat a"
    using bitlen_bounds[OF p] by (simp_all add: a_def)
  have qb: "(2::int) ^ nat (b - 1) \<le> q" "q < 2 ^ nat b"
    using bitlen_bounds[OF q] by (simp_all add: b_def)
  have pa': "power_int 2 (a - 1) \<le> (of_int p :: rat)" "(of_int p :: rat) < power_int 2 a"
  proof -
    have "(of_int ((2::int) ^ nat (a - 1)) :: rat) \<le> of_int p" using pa(1) by (simp only: of_int_le_iff)
    then show "power_int 2 (a - 1) \<le> (of_int p :: rat)" using a1 by (simp add: power_int_nonneg_exp)
    have "(of_int p :: rat) < of_int ((2::int) ^ nat a)" using pa(2) by (simp only: of_int_less_iff)
    then show "(of_int p :: rat) < power_int 2 a" using a1 by (simp add: power_int_nonneg_exp)
  qed
  have qb': "power_int 2 (b - 1) \<le> (of_int q :: rat)" "(of_int q :: rat) < power_int 2 b"
  proof -
    have "(of_int ((2::int) ^ nat (b - 1)) :: rat) \<le> of_int q" using qb(1) by (simp only: of_int_le_iff)
    then show "power_int 2 (b - 1) \<le> (of_int q :: rat)" using b1 by (simp add: power_int_nonneg_exp)
    have "(of_int q :: rat) < of_int ((2::int) ^ nat b)" using qb(2) by (simp only: of_int_less_iff)
    then show "(of_int q :: rat) < power_int 2 b" using b1 by (simp add: power_int_nonneg_exp)
  qed
  have qpos: "(0::rat) < of_int q" using q by simp
  have ppos: "(0::rat) < of_int p" using p by simp
  have up: "\<bar>x\<bar> < power_int 2 (a - b + 1)"
  proof -
    have "of_int p / of_int q < (power_int 2 a :: rat) / of_int q"
      using pa'(2) qpos by (simp add: divide_strict_right_mono)
    also have "\<dots> \<le> power_int 2 a / power_int 2 (b - 1)"
      using qb'(1) q by (intro divide_left_mono) (auto intro!: mult_pos_pos)
    also have "\<dots> = power_int 2 (a - (b - 1))"
      by (simp only: power_int_diff[of "2::rat" a "b - 1", simplified])
    also have "a - (b - 1) = a - b + 1" by simp
    finally show ?thesis using x by simp
  qed
  have lo: "power_int 2 (a - b - 1) < \<bar>x\<bar>"
  proof -
    have "a - b - 1 = (a - 1) - b" by simp
    then have "power_int 2 (a - b - 1) = (power_int 2 (a - 1) :: rat) / power_int 2 b"
      by (simp only: power_int_diff[of "2::rat" "a - 1" b, simplified])
    also have "\<dots> \<le> of_int p / power_int 2 b"
      using pa'(1) by (intro divide_right_mono) auto
    also have "\<dots> < of_int p / of_int q"
      using qb'(2) ppos qpos by (intro divide_strict_left_mono) (auto intro!: mult_pos_pos)
    finally show ?thesis using x by simp
  qed
  have il: "ilog2 x = (if power_int 2 (a - b) \<le> \<bar>x\<bar> then a - b else a - b - 1)"
    by (simp add: ilog2_def pq a_def b_def Let_def)
  show "power_int 2 (ilog2 x) \<le> \<bar>x\<bar>" using lo by (auto simp: il)
  show "\<bar>x\<bar> < power_int 2 (ilog2 x + 1)" using up by (auto simp: il not_le)
qed

lemma ilog2_unique:
  assumes "power_int 2 e \<le> \<bar>x\<bar>" and "\<bar>x\<bar> < power_int 2 (e + 1)"
  shows "ilog2 x = e"
proof -
  have "(0::rat) < power_int 2 e" by simp
  then have "0 < \<bar>x\<bar>" using assms(1) by linarith
  then have nz: "x \<noteq> 0" by simp
  note b = ilog2_bounds[OF nz]
  have "\<not> ilog2 x < e"
  proof
    assume "ilog2 x < e"
    then have "ilog2 x + 1 \<le> e" by simp
    then have "(power_int 2 (ilog2 x + 1) :: rat) \<le> power_int 2 e"
      by (intro power_int_increasing) auto
    then show False using b(2) assms(1) by linarith
  qed
  moreover have "\<not> e < ilog2 x"
  proof
    assume "e < ilog2 x"
    then have "e + 1 \<le> ilog2 x" by simp
    then have "(power_int 2 (e + 1) :: rat) \<le> power_int 2 (ilog2 x)"
      by (intro power_int_increasing) auto
    then show False using b(1) assms(2) by linarith
  qed
  ultimately show ?thesis by linarith
qed

text \<open>
  \<open>round64\<close> is odd, keeps a positive number inside its binade, is exact on a number
  with a significand below \<open>2 ^ 53\<close> and is monotone.
\<close>

lemma ilog2_minus [simp]: "ilog2 (- x) = ilog2 x"
  by (simp add: ilog2_def)

lemma round64_zero [simp]: "round64 0 = 0"
  by (simp add: round64_def)

lemma round64_minus: "round64 (- x) = - round64 x"
  by (simp add: round64_def sgn_minus)

lemma round64_pos_eq:
  "0 < x \<Longrightarrow> round64 x =
     of_int (roundToEven (x / power_int 2 (ilog2 x - 52))) * power_int 2 (ilog2 x - 52)"
  by (simp add: round64_def)


lemma roundToEven_numeral_power [simp]: "roundToEven (2 ^ n) = 2 ^ n"
  using roundToEven_of_int[of "2 ^ n"] by simp

lemma roundToEven_numeral [simp]: "roundToEven (numeral n) = numeral n"
  using roundToEven_of_int[of "numeral n"] by simp



lemma round64_exact_pos:
  assumes m: "0 < m" "m < 2 ^ 53"
  shows "round64 (of_int m * power_int 2 k) = of_int m * power_int 2 k"
proof -
  define x :: rat where "x = of_int m * power_int 2 k"
  define e where "e = ilog2 x"
  define u :: rat where "u = power_int 2 (e - 52)"
  have x: "0 < x" using m by (simp add: x_def zero_less_mult_iff)
  then have nz: "x \<noteq> 0" by simp
  have b: "power_int 2 e \<le> x" using ilog2_bounds(1)[OF nz] x by (simp add: e_def)
  have mr: "(of_int m :: rat) < 2 ^ 53"
  proof -
    have "(of_int m :: rat) < of_int (2 ^ 53)" using m(2) by (simp only: of_int_less_iff)
    then show ?thesis by simp
  qed
  have "x < 2 ^ 53 * power_int 2 k"
    unfolding x_def using mr by (intro mult_strict_right_mono) auto
  also have "\<dots> = power_int 2 (53 + k)"
  proof -
    have "(power_int 2 (53 + k) :: rat) = power_int 2 53 * power_int 2 k"
      by (rule power_int_add) simp
    then show ?thesis by simp
  qed
  finally have lt: "(power_int 2 e :: rat) < power_int 2 (53 + k)" using b by linarith
  have e: "e < 53 + k"
  proof (rule ccontr)
    assume "\<not> e < 53 + k"
    then have "53 + k \<le> e" by simp
    then have "(power_int 2 (53 + k) :: rat) \<le> power_int 2 e"
      by (intro power_int_increasing) auto
    then show False using lt by linarith
  qed
  define j where "j = nat (k - (e - 52))"
  have j: "k = int j + (e - 52)" using e by (simp add: j_def)
  have pk: "(power_int 2 k :: rat) = 2 ^ j * u"
  proof -
    have "(power_int 2 k :: rat) = power_int 2 (int j + (e - 52))" using j by (simp only:)
    also have "\<dots> = power_int 2 (int j) * u" unfolding u_def by (rule power_int_add) simp
    finally show ?thesis by simp
  qed
  have u: "u \<noteq> 0" by (simp add: u_def)
  have xu: "x = of_int (m * 2 ^ j) * u" by (simp add: x_def pk)
  then have sc: "x / u = of_int (m * 2 ^ j)" using u by simp
  have "round64 x = of_int (roundToEven (x / u)) * u"
    unfolding u_def e_def by (rule round64_pos_eq[OF x])
  also have "\<dots> = of_int (m * 2 ^ j) * u" by (simp only: sc roundToEven_of_int)
  also have "\<dots> = x" by (simp only: xu[symmetric])
  finally show ?thesis by (simp only: x_def)
qed

lemma round64_exact:
  assumes "\<bar>m\<bar> < 2 ^ 53"
  shows "round64 (of_int m * power_int 2 k) = of_int m * power_int 2 k"
proof (cases "m = 0")
  case True
  then show ?thesis by simp
next
  case False
  show ?thesis
  proof (cases "0 < m")
    case True
    then show ?thesis using assms by (intro round64_exact_pos) auto
  next
    case neg: False
    then have p: "0 < - m" "- m < 2 ^ 53" using False assms by auto
    have "round64 (of_int m * power_int 2 k) = - round64 (of_int (- m) * power_int 2 k)"
      using round64_minus[of "of_int (- m) * power_int 2 k"] by simp
    also have "\<dots> = - (of_int (- m) * power_int 2 k)"
      by (simp only: round64_exact_pos[OF p])
    finally show ?thesis by simp
  qed
qed

lemma round64_of_int: "\<bar>m\<bar> < 2 ^ 53 \<Longrightarrow> round64 (of_int m) = of_int m"
  using round64_exact[of m 0] by simp




text \<open>
  The parts of a duration, and \<open>Hours\<close> on a duration of the 64-bit range, where the
  two conversions to \<open>float64\<close> are exact.
\<close>

lemma round64_numeral: "numeral n < (2::int) ^ 53 \<Longrightarrow> round64 (numeral n) = numeral n"
  using round64_of_int[of "numeral n"] by simp

lemma round64_one [simp]: "round64 1 = 1"
  using round64_of_int[of 1] by simp

lemma float64_exact: "\<bar>n\<bar> < 2 ^ 53 \<Longrightarrow> float64 n = of_int n"
  by (simp add: float64_def round64_of_int)














section \<open>Active repositories: results\<close>




lemma active_range_panic:
  assumes "\<exists>r\<in>set repos. PushedAt r = None"
  shows "loadActiveReposForOrganization_range ev days repos acc = None"
  using assms by (induction repos arbitrary: acc) (auto split: option.splits)







lemma float64_numeral: "numeral n < (2::int) ^ 53 \<Longrightarrow> float64 (numeral n) = numeral n"
  using float64_exact[of "numeral n"] by simp

lemma Hours_ex:
  "Hours 86400000000000 = 24"
  "Hours 172800000000000 = 48"
  "Hours 259200000000000 = 72"
  "Hours 432000000000000 = 120"
  "Hours 864000000000000 = 240"
  "Hours 2592000000000000 = 720"
  "Hours 3456000000000000 = 960"
  "Hours 14774400000000001 = 4104"
  by code_simp+

lemmas ex_defs = client0_def env_ex_def Since_def Sub_def
     minDuration_def maxDuration_def day_def repoN_def prN_def commitN_def
     insertionSort_def RepositoryNameSorter_Less_def PROpenDurationSorter_Less_def
     ToLower_def toLowerChar_def Let_def After_def Before_def withRequests_def
     Hours_ex float64_numeral round64_numeral







section \<open>The scan of an organization: results\<close>

text \<open>
  C8 on the code: the listing of the branch commits of \<open>api\<close> fails on its second
  page. \<open>makeCommitsList\<close> with an empty repository argument does not stop there: it
  goes on to \<open>docs\<close> and \<open>web\<close> and returns a map and a count with no error. The map
  binds \<open>api\<close> to the commit loaded before the failure and \<open>docs\<close> to its commit; \<open>web\<close>,
  whose only commit is a commit of a pull request, is not bound. The failure of a
  fetch in the walk over the pull requests is treated otherwise: when the commits of
  the pull request of \<open>docs\<close> cannot be listed, the scan stops at \<open>docs\<close>, sends no
  request for \<open>web\<close> and returns the nil map, the count 0 and the error.
\<close>

theorem C8_failed_branch_listing_does_not_abort_the_scan:
  "loadCommitsForRepo client_down ''org'' ''api'' []
       (time_AddDate env_ex (time_Now env_ex) 0 0 (- 30)) =
     Some ([commitN ''a1'' [''p0'']], Some (Error ''bad gateway''),
           [ReqRepositoriesListCommits ''org'' ''api'' (day 70) 0,
            ReqRepositoriesListCommits ''org'' ''api'' (day 70) 4])
   \<and> makeCommitsList env_ex client_down ''org'' [] [] isCommitInList 30 =
     Some (Some (Map.empty(''api'' \<mapsto> [commitN ''a1'' [''p0'']],
                           ''docs'' \<mapsto> [commitN ''d1'' [''p0'']])),
           2, None,
           [ReqRepositoriesListByOrg ''org'' 0,
            ReqRepositoriesListCommits ''org'' ''api'' (day 70) 0,
            ReqRepositoriesListCommits ''org'' ''api'' (day 70) 4,
            ReqPullRequestsList ''org'' ''api'' ''open,closed'' ''updated'' ''desc'' 0,
            ReqPullRequestsListCommits ''org'' ''api'' 11 0,
            ReqRepositoriesListCommits ''org'' ''docs'' (day 70) 0,
            ReqPullRequestsList ''org'' ''docs'' ''open,closed'' ''updated'' ''desc'' 0,
            ReqPullRequestsListCommits ''org'' ''docs'' 11 0,
            ReqRepositoriesListCommits ''org'' ''web'' (day 70) 0,
            ReqPullRequestsList ''org'' ''web'' ''open,closed'' ''updated'' ''desc'' 0,
            ReqPullRequestsListCommits ''org'' ''web'' 11 0])
   \<and> makeCommitsList env_ex client_walk_down ''org'' [] [] isCommitInList 30 =
     Some (None, 0, Some (Error ''timeout''),
           [ReqRepositoriesListByOrg ''org'' 0,
            ReqRepositoriesListCommits ''org'' ''api'' (day 70) 0,
            ReqPullRequestsList ''org'' ''api'' ''open,closed'' ''updated'' ''desc'' 0,
            ReqPullRequestsListCommits ''org'' ''api'' 11 0,
            ReqRepositoriesListCommits ''org'' ''docs'' (day 70) 0,
            ReqPullRequestsList ''org'' ''docs'' ''open,closed'' ''updated'' ''desc'' 0,
            ReqPullRequestsListCommits ''org'' ''docs'' 11 0])"
  by (simp add: makeCommitsList_def masterCommitsForSingleRepo_def loadCommitsForRepo_def
      loadCommitsFromAllRepoPRs_def loadCommitsFromAllRepoPRs_loop.simps
      loadActiveReposForOrganization_def loadReposForOrganization_def
      paginate.simps client_down_def client_walk_down_def ex_defs)


section \<open>Issue classification: results\<close>

lemma makeIssueList_range_filter:
  "makeIssueList_range lambda issues acc =
     acc @ filter (\<lambda>i. Labels i \<noteq> None \<and> lambda i) issues"
  by (induction issues arbitrary: acc) auto


text \<open>
  C9, as the code has it. The Backlog rule holds for an issue exactly when none of the
  rules Sprint, InProgress, ReadyForQA, QAPass and Done holds. So an issue is in the
  Backlog list of a repository exactly when it is a labeled issue of the repository that
  is in none of the five other lists: every labeled issue is in at least one of the six
  buckets, and the Backlog bucket shares no issue with the other five. Nothing is said
  about the five buckets among themselves.
\<close>

theorem C9_backlog_is_the_complement_of_the_five:
  "(isBacklogItem i \<longleftrightarrow>
      \<not> (isSprintItem i \<or> isInProgress i \<or> isReadyForQA i \<or> isQAPass i \<or> isDone i))
   \<and> (i \<in> set (makeIssueList_range isBacklogItem issues []) \<longleftrightarrow>
        i \<in> set issues \<and> Labels i \<noteq> None
        \<and> i \<notin> set (makeIssueList_range isSprintItem issues [])
        \<and> i \<notin> set (makeIssueList_range isInProgress issues [])
        \<and> i \<notin> set (makeIssueList_range isReadyForQA issues [])
        \<and> i \<notin> set (makeIssueList_range isQAPass issues [])
        \<and> i \<notin> set (makeIssueList_range isDone issues []))"
  by (auto simp: isBacklogItem_def makeIssueList_range_filter)


theorem C9_witness:
  "isBacklogItem (issueN 9 [''question''])
   \<and> \<not> isBacklogItem (issueN 8 [''Done''])
   \<and> issueN 9 [''question''] \<in> set (makeIssueList_range isBacklogItem
         [issueN 7 [''Sprint'', ''In Progress''], issueN 8 [''Done''], issueN 9 [''question'']] [])
   \<and> issueN 8 [''Done''] \<notin> set (makeIssueList_range isBacklogItem
         [issueN 7 [''Sprint'', ''In Progress''], issueN 8 [''Done''], issueN 9 [''question'']] [])"
proof -
  let ?is = "[issueN 7 [''Sprint'', ''In Progress''], issueN 8 [''Done''], issueN 9 [''question'']]"
  have q: "\<not> (isSprintItem (issueN 9 [''question'']) \<or> isInProgress (issueN 9 [''question''])
            \<or> isReadyForQA (issueN 9 [''question'']) \<or> isQAPass (issueN 9 [''question''])
            \<or> isDone (issueN 9 [''question'']))"
    by (simp add: isSprintItem_def isInProgress_def isReadyForQA_def isQAPass_def isDone_def
        getLabelString_def issueN_def ToLower_def toLowerChar_def Let_def)
  have d: "isDone (issueN 8 [''Done''])"
    by (simp add: isDone_def getLabelString_def issueN_def ToLower_def toLowerChar_def Let_def)
  have l: "makeIssueList_range isSprintItem ?is [] = [issueN 7 [''Sprint'', ''In Progress'']]"
     "makeIssueList_range isInProgress ?is [] = [issueN 7 [''Sprint'', ''In Progress'']]"
     "makeIssueList_range isReadyForQA ?is [] = []"
     "makeIssueList_range isQAPass ?is [] = []"
     "makeIssueList_range isDone ?is [] = [issueN 8 [''Done'']]"
    by (simp_all add: isSprintItem_def isInProgress_def isReadyForQA_def isQAPass_def isDone_def
        getLabelString_def issueN_def ToLower_def toLowerChar_def Let_def)
  have n: "issueN 9 [''question''] \<noteq> issueN 7 [''Sprint'', ''In Progress'']"
     "issueN 9 [''question''] \<noteq> issueN 8 [''Done'']"
     "Labels (issueN 9 [''question'']) \<noteq> None" "Labels (issueN 8 [''Done'']) \<noteq> None"
    by (simp_all add: issueN_def)
  show ?thesis
    using q d n
      C9_backlog_is_the_complement_of_the_five [of "issueN 9 [''question'']" ?is]
      C9_backlog_is_the_complement_of_the_five [of "issueN 8 [''Done'']" ?is]
    by (simp add: l)
qed


text \<open>
  C9 as stated fails: the issue with the labels \<open>Sprint\<close> and \<open>In Progress\<close> matches the
  Sprint rule and the InProgress rule, and the operations \<open>Sprint\<close> and \<open>InProgress\<close> both
  list it.
\<close>

theorem C9_counterexample:
  "isSprintItem (issueN 7 [''Sprint'', ''In Progress''])
   \<and> isInProgress (issueN 7 [''Sprint'', ''In Progress''])
   \<and> Sprint client_issues ''org'' ''repo'' =
       Some ([issueN 7 [''Sprint'', ''In Progress'']], None, [ReqIssuesListByRepo ''org'' ''repo'' [] 0])
   \<and> InProgress client_issues ''org'' ''repo'' =
       Some ([issueN 7 [''Sprint'', ''In Progress'']], None, [ReqIssuesListByRepo ''org'' ''repo'' [] 0])"
  by (simp add: Sprint_def InProgress_def makeIssueList_def loadIssuesForRepo_def
      withRequests_def paginate.simps client_issues_def client0_def
      isSprintItem_def isInProgress_def
      getLabelString_def issueN_def ToLower_def toLowerChar_def Let_def)


section \<open>Open pull requests: results\<close>

lemma loadOpenPRsForOrganization_prs_takeWhile:
  "loadOpenPRsForOrganization_prs ev daysPROpen prs allOpenPRs =
     allOpenPRs
       @ takeWhile (\<lambda>pr. \<not> round64 (Hours (Since ev (CreatedAt pr)) / 24) < float64 daysPROpen) prs"
  by (induction prs arbitrary: allOpenPRs) (auto simp: Let_def)

text \<open>
  C2 on the code: the listing of the open pull requests of the active repository
  \<open>api\<close> gives number 31, open for 2 days, before number 32, open for 10 days. With a
  minimum age of 5 days the loop over the pull requests ends at number 31, and number
  32 is not in the result.
\<close>

theorem C2_younger_pull_request_ends_the_repository:
  "loadPRsForRepo client_open ''org'' ''api'' =
     Some ([prN 31 (day 98) (day 98), prN 32 (day 90) (day 91)], None,
           [ReqPullRequestsList ''org'' ''api'' ''open'' [] [] 0])
   \<and> Hours (Since env_ex (CreatedAt (prN 31 (day 98) (day 98)))) / 24 = 2
   \<and> Hours (Since env_ex (CreatedAt (prN 32 (day 90) (day 91)))) / 24 = 10
   \<and> loadOpenPRsForOrganization env_ex client_open ''org'' 5 30 =
     Some ([], None,
           [ReqRepositoriesListByOrg ''org'' 0,
            ReqPullRequestsList ''org'' ''api'' ''open'' [] [] 0])"
  by (simp add: loadOpenPRsForOrganization_def loadActiveReposForOrganization_def
      loadReposForOrganization_def loadPRsForRepo_def paginate.simps client_open_def ex_defs)

end
